theory Spec2Isabelle
  imports Main
begin

section \<open>Strings and paths\<close>

text \<open>
  File names and paths are strings, taken to be ASCII. The program handles them with the
  runtime's string and path functions (\<^verbatim>\<open>toLowerCase\<close>, \<^verbatim>\<open>extname\<close>,
  \<^verbatim>\<open>join\<close>, \<^verbatim>\<open>dirname\<close>, \<^verbatim>\<open>basename\<close>, \<^verbatim>\<open>relative\<close>) and
  one regular expression. These functions are not code of the repository; they are written
  out here for POSIX paths without a trailing separator, as the program has them after it
  has normalised the folder it was given. \<open>join\<close> puts a separator between its
  arguments; the runtime's function also brings the result into normal form (it drops a
  leading \<^verbatim>\<open>./\<close> and a doubled separator), which changes the spelling of a path and not the
  file it names.
\<close>

definition lower_char :: "char \<Rightarrow> char" where
  "lower_char c =
     (case map_of (zip ''ABCDEFGHIJKLMNOPQRSTUVWXYZ'' ''abcdefghijklmnopqrstuvwxyz'') c of
        None \<Rightarrow> c
      | Some l \<Rightarrow> l)"

text \<open>\<^verbatim>\<open>String.prototype.toLowerCase\<close>, on the letters A to Z; other characters stay.\<close>

definition toLowerCase :: "string \<Rightarrow> string" where
  "toLowerCase s = map lower_char s"

text \<open>The part of a string after its last occurrence of \<open>c\<close> (all of it when there is none).\<close>

definition after_last :: "char \<Rightarrow> string \<Rightarrow> string" where
  "after_last c s = rev (takeWhile (\<lambda>x. x \<noteq> c) (rev s))"

text \<open>The part of a string before its last occurrence of \<open>c\<close> (empty when there is none).\<close>

definition before_last :: "char \<Rightarrow> string \<Rightarrow> string" where
  "before_last c s = rev (tl (dropWhile (\<lambda>x. x \<noteq> c) (rev s)))"

text \<open>
  \<^verbatim>\<open>path.extname\<close> of a directory entry's name: from the last dot to the end; empty
  when there is no dot, when the only dot is the first character, and for \<^verbatim>\<open>..\<close>.
\<close>

definition extname :: "string \<Rightarrow> string" where
  "extname n =
     (if CHR ''.'' \<notin> set n \<or> before_last CHR ''.'' n = [] \<or> n = ''..'' then []
      else CHR ''.'' # after_last CHR ''.'' n)"

text \<open>
  \<^verbatim>\<open>s.replace(/\.[^.]+$/, ext)\<close>: the expression matches a dot followed by one or more
  characters other than a dot, up to the end of the string; so it matches at the last dot
  of \<open>s\<close>, when that dot is not the last character, and nowhere else. Without a match the
  string is returned as it is.
\<close>

definition replace_ext :: "string \<Rightarrow> string \<Rightarrow> string" where
  "replace_ext s ext =
     (if CHR ''.'' \<in> set s \<and> after_last CHR ''.'' s \<noteq> [] then before_last CHR ''.'' s @ ext
      else s)"

definition join :: "string \<Rightarrow> string \<Rightarrow> string" where
  "join a b = a @ ''/'' @ b"

definition basename :: "string \<Rightarrow> string" where
  "basename p = after_last CHR ''/'' p"

definition dirname :: "string \<Rightarrow> string" where
  "dirname p =
     (if CHR ''/'' \<notin> set p then ''.''
      else if before_last CHR ''/'' p = [] then ''/''
      else before_last CHR ''/'' p)"

text \<open>\<^verbatim>\<open>path.relative(from, to)\<close> for a path \<open>to\<close> below \<open>from\<close>.\<close>

definition relative :: "string \<Rightarrow> string \<Rightarrow> string" where
  "relative from to =
     (if take (length from + 1) to = from @ ''/'' then drop (length from + 1) to else to)"

section \<open>The media files of a directory tree\<close>

text \<open>
  What \<^verbatim>\<open>readdir(dir, { withFileTypes: true })\<close> finds: entries in the order the
  platform lists them. An entry is a directory (with its own entries) or anything else,
  which the program treats as a file and whose size \<^verbatim>\<open>stat\<close> reports. Sizes are byte
  counts, in the range where the runtime's numbers are exact integers.
\<close>

datatype dirent = File string nat | Dir string "dirent list"

datatype media_type = TImage | TVideo

record MediaFile =
  path :: string
  name :: string
  relativePath :: string
  size_f :: nat
  type_f :: media_type
  width :: "nat option"
  height :: "nat option"

definition IMAGE_EXTS :: "string list" where
  "IMAGE_EXTS = [''.jpg'', ''.jpeg'', ''.png'', ''.webp'', ''.avif'', ''.tiff'', ''.gif'']"

definition VIDEO_EXTS :: "string list" where
  "VIDEO_EXTS = [''.mp4'', ''.mov'', ''.avi'', ''.mkv'', ''.webm'', ''.m4v'']"

definition media_file :: "string \<Rightarrow> string \<Rightarrow> string \<Rightarrow> nat \<Rightarrow> media_type \<Rightarrow> MediaFile" where
  "media_file fullPath n baseDir sz t =
     \<lparr>path = fullPath, name = n, relativePath = relative baseDir fullPath, size_f = sz,
      type_f = t, width = None, height = None\<rparr>"

text \<open>\<^verbatim>\<open>findMedia\<close> of the first version that handles videos (an if / else-if chain).\<close>

fun findMedia_mono :: "dirent list \<Rightarrow> string \<Rightarrow> string \<Rightarrow> MediaFile list" where
  "findMedia_mono [] dir baseDir = []"
| "findMedia_mono (Dir n sub # entries) dir baseDir =
     findMedia_mono sub (join dir n) baseDir @ findMedia_mono entries dir baseDir"
| "findMedia_mono (File n sz # entries) dir baseDir =
     (let fullPath = join dir n;
          ext = toLowerCase (extname n)
      in (if ext \<in> set IMAGE_EXTS then [media_file fullPath n baseDir sz TImage]
          else if ext \<in> set VIDEO_EXTS then [media_file fullPath n baseDir sz TVideo]
          else [])
         @ findMedia_mono entries dir baseDir)"

text \<open>\<^verbatim>\<open>findMedia\<close> of the refactored version (two flags and a conditional type).\<close>

fun findMedia :: "dirent list \<Rightarrow> string \<Rightarrow> string \<Rightarrow> MediaFile list" where
  "findMedia [] dir baseDir = []"
| "findMedia (Dir n sub # entries) dir baseDir =
     findMedia sub (join dir n) baseDir @ findMedia entries dir baseDir"
| "findMedia (File n sz # entries) dir baseDir =
     (let fullPath = join dir n;
          ext = toLowerCase (extname n);
          isImage = ext \<in> set IMAGE_EXTS;
          isVideo = ext \<in> set VIDEO_EXTS
      in (if isImage \<or> isVideo
          then [media_file fullPath n baseDir sz (if isImage then TImage else TVideo)]
          else [])
         @ findMedia entries dir baseDir)"

section \<open>Effects: external tools, output files, the user\<close>

text \<open>
  What the program does to the world, in the order it does it: directories it creates,
  the calls to the image library and to the video executables, and what it prints when it
  gives up. Informative log lines (progress, sizes, percentages) are left out.
  Listing a directory, creating one and reading the size of a file that exists are taken
  to succeed: the calls that can throw are the calls to the tools.
\<close>

datatype event =
    Mkdir string
  | SharpMetadata string
  | Ffprobe string
  | SharpWebp string "nat option" nat string
  | Ffmpeg "string list"
  | LogError string
  | LogCancel

text \<open>
  \<open>SharpWebp input resize quality output\<close> is
  \<^verbatim>\<open>sharp(input)[.resize(w, null, { withoutEnlargement: true })].webp({ quality }).toFile(output)\<close>,
  with the resize step present when \<open>resize = Some w\<close>. \<open>Ffmpeg args\<close> runs the video
  encoder on the argument list; \<open>Ffprobe p\<close> asks for the dimensions of the first video
  stream of \<open>p\<close>.

  The tools are parameters. A call either throws (\<open>Inl\<close> of the error's message) or
  succeeds; an encoder that succeeds has written its output file, of the size given.
  \<open>ffprobe_dims\<close> is the pair of numbers \<^verbatim>\<open>getVideoDimensions\<close> reads from the
  output of the probe (a missing or unreadable number is 0), or \<open>None\<close> when the probe throws.
\<close>

record tools =
  sharp_metadata :: "string \<Rightarrow> string + (nat option \<times> nat option)"
  ffprobe_dims :: "string \<Rightarrow> (nat \<times> nat) option"
  sharp_webp :: "string \<Rightarrow> nat option \<Rightarrow> nat \<Rightarrow> string \<Rightarrow> string + nat"
  ffmpeg :: "string list \<Rightarrow> string + nat"

text \<open>
  The state: the events so far, and the files written so far (output path to the input
  it was made from and its size; a later write to the same path replaces the earlier one).
\<close>

record world =
  trace :: "event list"
  out_files :: "string \<rightharpoonup> string \<times> nat"

definition init_world :: world where
  "init_world = \<lparr>trace = [], out_files = Map.empty\<rparr>"

text \<open>
  An awaited step returns a value, throws an error with a message, or ends the process
  (\<^verbatim>\<open>process.exit(code)\<close>).
\<close>

datatype 'a step = Ret 'a | Throw string | ProcessExit nat

type_synonym 'a io = "world \<Rightarrow> 'a step \<times> world"

definition ret :: "'a \<Rightarrow> 'a io" where
  "ret x w = (Ret x, w)"

definition then_do :: "'a io \<Rightarrow> ('a \<Rightarrow> 'b io) \<Rightarrow> 'b io" where
  "then_do m f w =
     (case m w of
        (Ret x, w') \<Rightarrow> f x w'
      | (Throw e, w') \<Rightarrow> (Throw e, w')
      | (ProcessExit c, w') \<Rightarrow> (ProcessExit c, w'))"

definition emit :: "event \<Rightarrow> world \<Rightarrow> world" where
  "emit e w = w\<lparr>trace := trace w @ [e]\<rparr>"

definition exit_io :: "event \<Rightarrow> nat \<Rightarrow> 'a io" where
  "exit_io e code w = (ProcessExit code, emit e w)"

definition mkdir :: "string \<Rightarrow> unit io" where
  "mkdir p w = (Ret (), emit (Mkdir p) w)"

definition call_tool :: "event \<Rightarrow> string + 'a \<Rightarrow> 'a io" where
  "call_tool e r w = (case r of Inl msg \<Rightarrow> (Throw msg, emit e w) | Inr x \<Rightarrow> (Ret x, emit e w))"

definition write_file :: "string \<Rightarrow> string \<Rightarrow> nat \<Rightarrow> unit io" where
  "write_file outputPath inputPath sz w =
     (Ret (), w\<lparr>out_files := (out_files w)(outputPath \<mapsto> (inputPath, sz))\<rparr>)"

text \<open>\<^verbatim>\<open>(await stat(outputPath)).size\<close> of an output file.\<close>

definition stat_size :: "string \<Rightarrow> nat io" where
  "stat_size outputPath w =
     (case out_files w outputPath of
        None \<Rightarrow> (Throw ''ENOENT'', w)
      | Some (src, sz) \<Rightarrow> (Ret sz, w))"

text \<open>
  The two encoders: the call, and on success the output file it has written.
\<close>

definition sharp_to_file :: "tools \<Rightarrow> string \<Rightarrow> nat option \<Rightarrow> nat \<Rightarrow> string \<Rightarrow> unit io" where
  "sharp_to_file t inputPath resize quality outputPath =
     then_do (call_tool (SharpWebp inputPath resize quality outputPath)
                (sharp_webp t inputPath resize quality outputPath)) (\<lambda>sz.
     write_file outputPath inputPath sz)"

definition run_ffmpeg :: "tools \<Rightarrow> string list \<Rightarrow> string \<Rightarrow> string \<Rightarrow> unit io" where
  "run_ffmpeg t args inputPath outputPath =
     then_do (call_tool (Ffmpeg args) (ffmpeg t args)) (\<lambda>sz.
     write_file outputPath inputPath sz)"

datatype mode = Fast | Custom

text \<open>
  The user's answers: the mode, and the maximal width chosen for a file when asked about it
  (\<open>None\<close>: the prompt was cancelled). The width prompt offers 0 (keep the original), 400,
  800, 1200, 1920 and 2560.
\<close>

record user =
  select_mode :: "mode option"
  select_width :: "MediaFile \<Rightarrow> nat option"

text \<open>What \<^verbatim>\<open>stat(folderPath)\<close> finds at the folder the user gave.\<close>

datatype folder_stat = NoEntry | NotADirectory | Directory "dirent list"

record report =
  totalOriginal :: nat
  totalCompressed :: nat

record report_mono = report +
  savings :: int

section \<open>The refactored program\<close>

definition getVideoDimensions :: "tools \<Rightarrow> string \<Rightarrow> (nat \<times> nat) io" where
  "getVideoDimensions t p w =
     (Ret (case ffprobe_dims t p of None \<Rightarrow> (0, 0) | Some d \<Rightarrow> d), emit (Ffprobe p) w)"

text \<open>Decimal digits of a number, as a template string prints it.\<close>

fun show_nat :: "nat \<Rightarrow> string" where
  "show_nat n =
     (if n < 10 then [''0123456789'' ! n] else show_nat (n div 10) @ [''0123456789'' ! (n mod 10)])"

declare show_nat.simps [simp del]

text \<open>The filter \<^verbatim>\<open>scale='min(${maxWidth},iw)':-2\<close>.\<close>

definition scale_filter :: "nat \<Rightarrow> string" where
  "scale_filter maxWidth =
     ''scale='' @ [CHR 0x27] @ ''min('' @ show_nat maxWidth @ '',iw)'' @ [CHR 0x27] @ '':-2''"

text \<open>
  \<^verbatim>\<open>if (maxWidth && maxWidth > 0)\<close> on an optional number: the width to scale down to, if any.
\<close>

definition resize_width :: "nat option \<Rightarrow> nat option" where
  "resize_width maxWidth =
     (case maxWidth of None \<Rightarrow> None | Some m \<Rightarrow> if m \<noteq> 0 \<and> 0 < m then Some m else None)"

definition compressImage :: "tools \<Rightarrow> string \<Rightarrow> string \<Rightarrow> nat option \<Rightarrow> unit io" where
  "compressImage t inputPath outputPath maxWidth =
     then_do (mkdir (dirname outputPath)) (\<lambda>_.
     sharp_to_file t inputPath (resize_width maxWidth) 75 outputPath)"

definition compressVideo :: "tools \<Rightarrow> string \<Rightarrow> string \<Rightarrow> nat option \<Rightarrow> unit io" where
  "compressVideo t inputPath outputPath maxWidth =
     then_do (mkdir (dirname outputPath)) (\<lambda>_.
     let args = [''-y'', ''-i'', inputPath, ''-c:v'', ''libx264'', ''-crf'', ''28'',
                 ''-preset'', ''fast'', ''-c:a'', ''aac'', ''-b:a'', ''128k''];
         args = (case resize_width maxWidth of
                   Some m \<Rightarrow> args @ [''-vf'', scale_filter m]
                 | None \<Rightarrow> args);
         args = args @ [outputPath]
     in run_ffmpeg t args inputPath outputPath)"

definition processFile :: "tools \<Rightarrow> MediaFile \<Rightarrow> string \<Rightarrow> nat option \<Rightarrow> nat io" where
  "processFile t file outputDir maxWidth =
     (let ext = (if type_f file = TImage then ''.webp'' else ''.mp4'');
          outputRelative = replace_ext (relativePath file) ext;
          outputPath = join outputDir outputRelative
      in then_do (if type_f file = TImage
                  then compressImage t (path file) outputPath maxWidth
                  else compressVideo t (path file) outputPath maxWidth) (\<lambda>_.
         stat_size outputPath))"

definition getModeInteractive :: "user \<Rightarrow> mode io" where
  "getModeInteractive u =
     (case select_mode u of None \<Rightarrow> exit_io LogCancel 0 | Some m \<Rightarrow> ret m)"

definition getMaxWidthInteractive :: "user \<Rightarrow> MediaFile \<Rightarrow> nat io" where
  "getMaxWidthInteractive u file =
     (case select_width u file of None \<Rightarrow> exit_io LogCancel 0 | Some maxWidth \<Rightarrow> ret maxWidth)"

fun loadDimensions :: "tools \<Rightarrow> MediaFile list \<Rightarrow> MediaFile list io" where
  "loadDimensions t [] = ret []"
| "loadDimensions t (file # media) =
     then_do (if type_f file = TImage
              then then_do (call_tool (SharpMetadata (path file)) (sharp_metadata t (path file)))
                     (\<lambda>(wd, ht). ret (file\<lparr>width := wd, height := ht\<rparr>))
              else then_do (getVideoDimensions t (path file))
                     (\<lambda>(wd, ht). ret (file\<lparr>width := Some wd, height := Some ht\<rparr>))) (\<lambda>file'.
     then_do (loadDimensions t media) (\<lambda>media'.
     ret (file' # media')))"

text \<open>The loop of \<^verbatim>\<open>main\<close> over the media files, with the two running totals.\<close>

fun process_all ::
  "tools \<Rightarrow> user \<Rightarrow> mode \<Rightarrow> string \<Rightarrow> MediaFile list \<Rightarrow> nat \<times> nat \<Rightarrow> (nat \<times> nat) io" where
  "process_all t u md outputDir [] totals = ret totals"
| "process_all t u md outputDir (file # rest) totals =
     then_do (if md = Custom
              then then_do (getMaxWidthInteractive u file) (\<lambda>maxWidth. ret (Some maxWidth))
              else ret None) (\<lambda>maxWidth.
     then_do (processFile t file outputDir maxWidth) (\<lambda>compressedSize.
     process_all t u md outputDir rest
       (fst totals + size_f file, snd totals + compressedSize)))"

text \<open>
  The logger's \<^verbatim>\<open>error\<close>: with a folder on the command line it prints to the console
  with a prefix, otherwise through the prompt library.
\<close>

definition log_error :: "bool \<Rightarrow> string \<Rightarrow> event" where
  "log_error isCliMode msg = LogError (if isCliMode then ''Error: '' @ msg else msg)"

text \<open>
  \<^verbatim>\<open>main\<close>, from the point where the folder path has been read (from the command line
  when \<open>isCliMode\<close>, from the prompt otherwise) and normalised.
\<close>

definition main :: "tools \<Rightarrow> user \<Rightarrow> bool \<Rightarrow> string \<Rightarrow> folder_stat \<Rightarrow> report io" where
  "main t u isCliMode folderPath st =
     (case st of
        Directory entries \<Rightarrow>
          (let allMedia = findMedia entries folderPath folderPath
           in if length allMedia = 0
              then exit_io (log_error isCliMode ''No images or videos found'') 1
              else
                then_do (if isCliMode then ret Fast else getModeInteractive u) (\<lambda>md.
                then_do (if md = Custom then loadDimensions t allMedia else ret allMedia)
                  (\<lambda>allMedia.
                let outputDir = join (dirname folderPath) (basename folderPath @ ''-compressed'')
                in then_do (mkdir outputDir) (\<lambda>_.
                   then_do (process_all t u md outputDir allMedia (0, 0)) (\<lambda>totals.
                   ret \<lparr>totalOriginal = fst totals, totalCompressed = snd totals\<rparr>)))))
      | _ \<Rightarrow> exit_io (log_error isCliMode ''Invalid folder path'') 1)"

text \<open>\<^verbatim>\<open>main().catch(...)\<close>: an error that escapes is printed and the process exits with 1.\<close>

definition program ::
  "tools \<Rightarrow> user \<Rightarrow> bool \<Rightarrow> string \<Rightarrow> folder_stat \<Rightarrow> report step \<times> world" where
  "program t u isCliMode folderPath st =
     (case main t u isCliMode folderPath st init_world of
        (Throw msg, w) \<Rightarrow> (ProcessExit 1, emit (LogError msg) w)
      | r \<Rightarrow> r)"

section \<open>The first version with videos\<close>

text \<open>Here \<^verbatim>\<open>compressVideo\<close> leaves the output directory to its caller.\<close>

definition compressVideo_mono :: "tools \<Rightarrow> string \<Rightarrow> string \<Rightarrow> nat option \<Rightarrow> unit io" where
  "compressVideo_mono t inputPath outputPath maxWidth =
     (let args = [''-y'', ''-i'', inputPath, ''-c:v'', ''libx264'', ''-crf'', ''28'',
                  ''-preset'', ''fast'', ''-c:a'', ''aac'', ''-b:a'', ''128k''];
          args = (case resize_width maxWidth of
                    Some m \<Rightarrow> args @ [''-vf'', scale_filter m]
                  | None \<Rightarrow> args);
          args = args @ [outputPath]
      in run_ffmpeg t args inputPath outputPath)"

text \<open>The two loops that read the dimensions: of the images, then of the videos.\<close>

fun image_dims_mono :: "tools \<Rightarrow> MediaFile list \<Rightarrow> MediaFile list io" where
  "image_dims_mono t [] = ret []"
| "image_dims_mono t (img # images) =
     then_do (call_tool (SharpMetadata (path img)) (sharp_metadata t (path img))) (\<lambda>(wd, ht).
     then_do (image_dims_mono t images) (\<lambda>images'.
     ret (img\<lparr>width := wd, height := ht\<rparr> # images')))"

fun video_dims_mono :: "tools \<Rightarrow> MediaFile list \<Rightarrow> MediaFile list io" where
  "video_dims_mono t [] = ret []"
| "video_dims_mono t (vid # videos) =
     then_do (getVideoDimensions t (path vid)) (\<lambda>(wd, ht).
     then_do (video_dims_mono t videos) (\<lambda>videos'.
     ret (vid\<lparr>width := Some wd, height := Some ht\<rparr> # videos')))"

text \<open>The loop of the fast mode.\<close>

fun fast_loop_mono ::
  "tools \<Rightarrow> string \<Rightarrow> MediaFile list \<Rightarrow> nat \<times> nat \<Rightarrow> (nat \<times> nat) io" where
  "fast_loop_mono t outputDir [] totals = ret totals"
| "fast_loop_mono t outputDir (file # rest) totals =
     then_do
       (if type_f file = TImage
        then (let outputRelative = replace_ext (relativePath file) ''.webp'';
                  outputPath = join outputDir outputRelative
              in then_do (mkdir (dirname outputPath)) (\<lambda>_.
                 then_do (sharp_to_file t (path file) None 75 outputPath) (\<lambda>_.
                 stat_size outputPath)))
        else (let outputRelative = replace_ext (relativePath file) ''.mp4'';
                  outputPath = join outputDir outputRelative
              in then_do (mkdir (dirname outputPath)) (\<lambda>_.
                 then_do (compressVideo_mono t (path file) outputPath None) (\<lambda>_.
                 stat_size outputPath)))) (\<lambda>outputSize.
     fast_loop_mono t outputDir rest (fst totals + size_f file, snd totals + outputSize))"

text \<open>The loop of the custom mode: it asks for a width before each file.\<close>

fun custom_loop_mono ::
  "tools \<Rightarrow> user \<Rightarrow> string \<Rightarrow> MediaFile list \<Rightarrow> nat \<times> nat \<Rightarrow> (nat \<times> nat) io" where
  "custom_loop_mono t u outputDir [] totals = ret totals"
| "custom_loop_mono t u outputDir (file # rest) totals =
     then_do (case select_width u file of
                None \<Rightarrow> exit_io LogCancel 0
              | Some maxWidth \<Rightarrow> ret maxWidth) (\<lambda>maxWidth.
     then_do
       (if type_f file = TImage
        then (let outputRelative = replace_ext (relativePath file) ''.webp'';
                  outputPath = join outputDir outputRelative
              in then_do (mkdir (dirname outputPath)) (\<lambda>_.
                 then_do (sharp_to_file t (path file)
                            (if 0 < maxWidth then Some maxWidth else None) 75 outputPath) (\<lambda>_.
                 stat_size outputPath)))
        else (let outputRelative = replace_ext (relativePath file) ''.mp4'';
                  outputPath = join outputDir outputRelative
              in then_do (mkdir (dirname outputPath)) (\<lambda>_.
                 then_do (compressVideo_mono t (path file) outputPath (Some maxWidth)) (\<lambda>_.
                 stat_size outputPath)))) (\<lambda>outputSize.
     custom_loop_mono t u outputDir rest
       (fst totals + size_f file, snd totals + outputSize)))"

definition main_mono :: "tools \<Rightarrow> user \<Rightarrow> string \<Rightarrow> folder_stat \<Rightarrow> report_mono io" where
  "main_mono t u folderPath st =
     (let folderName = basename folderPath
      in case st of
           NoEntry \<Rightarrow> exit_io (LogError ''Folder not found'') 1
         | NotADirectory \<Rightarrow> exit_io (LogError ''Please provide a folder, not a file'') 1
         | Directory entries \<Rightarrow>
             (let allMedia = findMedia_mono entries folderPath folderPath
              in if length allMedia = 0
                 then exit_io (LogError ''No images or videos found'') 1
                 else
                   then_do (image_dims_mono t (filter (\<lambda>m. type_f m = TImage) allMedia))
                     (\<lambda>images.
                   then_do (video_dims_mono t (filter (\<lambda>m. type_f m = TVideo) allMedia))
                     (\<lambda>videos.
                   let mediaToProcess = images @ videos
                   in then_do (case select_mode u of
                                 None \<Rightarrow> exit_io LogCancel 0
                               | Some md \<Rightarrow> ret md) (\<lambda>md.
                      let outputDir = join (dirname folderPath) (folderName @ ''-compressed'')
                      in then_do (mkdir outputDir) (\<lambda>_.
                         then_do (if md = Fast
                                  then fast_loop_mono t outputDir mediaToProcess (0, 0)
                                  else custom_loop_mono t u outputDir mediaToProcess (0, 0))
                           (\<lambda>totals.
                         let savings = int (fst totals) - int (snd totals)
                         in ret \<lparr>totalOriginal = fst totals, totalCompressed = snd totals,
                                 savings = savings\<rparr>)))))))"

definition program_mono ::
  "tools \<Rightarrow> user \<Rightarrow> string \<Rightarrow> folder_stat \<Rightarrow> report_mono step \<times> world" where
  "program_mono t u folderPath st =
     (case main_mono t u folderPath st init_world of
        (Throw msg, w) \<Rightarrow> (ProcessExit 1, emit (LogError msg) w)
      | r \<Rightarrow> r)"

section \<open>The images-only version\<close>

text \<open>
  The version that converts images only. Its files carry no type, it asks for the size of
  a file only when the file is an image, and it reads the dimensions of every image before
  it asks for the mode.
\<close>

record ImageFile =
  path_i :: string
  name_i :: string
  relativePath_i :: string
  size_i :: nat
  width_i :: "nat option"
  height_i :: "nat option"

record user_images =
  select_mode_i :: "mode option"
  select_width_i :: "ImageFile \<Rightarrow> nat option"

fun findImages :: "dirent list \<Rightarrow> string \<Rightarrow> string \<Rightarrow> ImageFile list" where
  "findImages [] dir baseDir = []"
| "findImages (Dir n sub # entries) dir baseDir =
     findImages sub (join dir n) baseDir @ findImages entries dir baseDir"
| "findImages (File n sz # entries) dir baseDir =
     (let fullPath = join dir n;
          ext = toLowerCase (extname n)
      in (if ext \<in> set IMAGE_EXTS
          then [\<lparr>path_i = fullPath, name_i = n, relativePath_i = relative baseDir fullPath,
                 size_i = sz, width_i = None, height_i = None\<rparr>]
          else [])
         @ findImages entries dir baseDir)"

fun dims_images :: "tools \<Rightarrow> ImageFile list \<Rightarrow> ImageFile list io" where
  "dims_images t [] = ret []"
| "dims_images t (img # allImages) =
     then_do (call_tool (SharpMetadata (path_i img)) (sharp_metadata t (path_i img)))
       (\<lambda>(wd, ht).
     then_do (dims_images t allImages) (\<lambda>allImages'.
     ret (img\<lparr>width_i := wd, height_i := ht\<rparr> # allImages')))"

fun fast_loop_images ::
  "tools \<Rightarrow> string \<Rightarrow> ImageFile list \<Rightarrow> nat \<times> nat \<Rightarrow> (nat \<times> nat) io" where
  "fast_loop_images t outputDir [] totals = ret totals"
| "fast_loop_images t outputDir (img # rest) totals =
     (let outputRelative = replace_ext (relativePath_i img) ''.webp'';
          outputPath = join outputDir outputRelative
      in then_do (mkdir (dirname outputPath)) (\<lambda>_.
         then_do (sharp_to_file t (path_i img) None 75 outputPath) (\<lambda>_.
         then_do (stat_size outputPath) (\<lambda>outputSize.
         fast_loop_images t outputDir rest
           (fst totals + size_i img, snd totals + outputSize)))))"

fun custom_loop_images ::
  "tools \<Rightarrow> user_images \<Rightarrow> string \<Rightarrow> ImageFile list \<Rightarrow> nat \<times> nat \<Rightarrow> (nat \<times> nat) io" where
  "custom_loop_images t u outputDir [] totals = ret totals"
| "custom_loop_images t u outputDir (img # rest) totals =
     then_do (case select_width_i u img of
                None \<Rightarrow> exit_io LogCancel 0
              | Some maxWidth \<Rightarrow> ret maxWidth) (\<lambda>maxWidth.
     let outputRelative = replace_ext (relativePath_i img) ''.webp'';
         outputPath = join outputDir outputRelative
     in then_do (mkdir (dirname outputPath)) (\<lambda>_.
        then_do (sharp_to_file t (path_i img)
                   (if 0 < maxWidth then Some maxWidth else None) 75 outputPath) (\<lambda>_.
        then_do (stat_size outputPath) (\<lambda>outputSize.
        custom_loop_images t u outputDir rest
          (fst totals + size_i img, snd totals + outputSize)))))"

definition main_images ::
  "tools \<Rightarrow> user_images \<Rightarrow> string \<Rightarrow> folder_stat \<Rightarrow> report_mono io" where
  "main_images t u folderPath st =
     (let folderName = basename folderPath
      in case st of
           NoEntry \<Rightarrow> exit_io (LogError ''Folder not found'') 1
         | NotADirectory \<Rightarrow> exit_io (LogError ''Please provide a folder, not a file'') 1
         | Directory entries \<Rightarrow>
             (let allImages = findImages entries folderPath folderPath
              in if length allImages = 0
                 then exit_io (LogError ''No images found'') 1
                 else
                   then_do (dims_images t allImages) (\<lambda>allImages.
                   then_do (case select_mode_i u of
                              None \<Rightarrow> exit_io LogCancel 0
                            | Some md \<Rightarrow> ret md) (\<lambda>md.
                   let outputDir = join (dirname folderPath) (folderName @ ''-compressed'')
                   in then_do (mkdir outputDir) (\<lambda>_.
                      then_do (if md = Fast
                               then fast_loop_images t outputDir allImages (0, 0)
                               else custom_loop_images t u outputDir allImages (0, 0))
                        (\<lambda>totals.
                      let savings = int (fst totals) - int (snd totals)
                      in ret \<lparr>totalOriginal = fst totals, totalCompressed = snd totals,
                              savings = savings\<rparr>))))))"

definition program_images ::
  "tools \<Rightarrow> user_images \<Rightarrow> string \<Rightarrow> folder_stat \<Rightarrow> report_mono step \<times> world" where
  "program_images t u folderPath st =
     (case main_images t u folderPath st init_world of
        (Throw msg, w) \<Rightarrow> (ProcessExit 1, emit (LogError msg) w)
      | r \<Rightarrow> r)"

text \<open>An image file seen as a media file, and back; the user of one version as a user of the other.\<close>

definition to_media :: "ImageFile \<Rightarrow> MediaFile" where
  "to_media img =
     \<lparr>path = path_i img, name = name_i img, relativePath = relativePath_i img,
      size_f = size_i img, type_f = TImage, width = width_i img, height = height_i img\<rparr>"

definition to_image :: "MediaFile \<Rightarrow> ImageFile" where
  "to_image f =
     \<lparr>path_i = path f, name_i = name f, relativePath_i = relativePath f,
      size_i = size_f f, width_i = width f, height_i = height f\<rparr>"

definition to_user :: "user_images \<Rightarrow> user" where
  "to_user u =
     \<lparr>select_mode = select_mode_i u, select_width = (\<lambda>f. select_width_i u (to_image f))\<rparr>"

section \<open>Notions used to state the properties\<close>

text \<open>Every file of a tree, as the walk meets them: full path, name and size.\<close>

fun all_files :: "dirent list \<Rightarrow> string \<Rightarrow> (string \<times> string \<times> nat) list" where
  "all_files [] dir = []"
| "all_files (Dir n sub # entries) dir = all_files sub (join dir n) @ all_files entries dir"
| "all_files (File n sz # entries) dir = (join dir n, n, sz) # all_files entries dir"

text \<open>Where the output of a media file goes, and the encoder call that is made for it.\<close>

definition output_path :: "string \<Rightarrow> MediaFile \<Rightarrow> string" where
  "output_path outputDir f =
     join outputDir
       (replace_ext (relativePath f) (if type_f f = TImage then ''.webp'' else ''.mp4''))"

definition encode_event :: "string \<Rightarrow> MediaFile \<Rightarrow> nat option \<Rightarrow> event" where
  "encode_event outputDir f maxWidth =
     (if type_f f = TImage
      then SharpWebp (path f) (resize_width maxWidth) 75 (output_path outputDir f)
      else Ffmpeg ([''-y'', ''-i'', path f, ''-c:v'', ''libx264'', ''-crf'', ''28'',
                    ''-preset'', ''fast'', ''-c:a'', ''aac'', ''-b:a'', ''128k'']
                   @ (case resize_width maxWidth of
                        Some m \<Rightarrow> [''-vf'', scale_filter m]
                      | None \<Rightarrow> [])
                   @ [output_path outputDir f]))"

text \<open>The calls that encode, and what the encoder answers to one.\<close>

fun is_encode :: "event \<Rightarrow> bool" where
  "is_encode (SharpWebp i r q out) = True"
| "is_encode (Ffmpeg args) = True"
| "is_encode e = False"

fun encoder_answer :: "tools \<Rightarrow> event \<Rightarrow> string + nat" where
  "encoder_answer t (SharpWebp i r q out) = sharp_webp t i r q out"
| "encoder_answer t (Ffmpeg args) = ffmpeg t args"
| "encoder_answer t e = Inr 0"

definition written_size :: "tools \<Rightarrow> event \<Rightarrow> nat" where
  "written_size t e = (case encoder_answer t e of Inl msg \<Rightarrow> 0 | Inr sz \<Rightarrow> sz)"

text \<open>The calls to an external tool, and the input file a call is made on.\<close>

fun tool_input :: "event \<Rightarrow> string option" where
  "tool_input (SharpMetadata p) = Some p"
| "tool_input (Ffprobe p) = Some p"
| "tool_input (SharpWebp i r q out) = Some i"
| "tool_input (Ffmpeg args) = (case args of a # b # c # rest \<Rightarrow> Some c | _ \<Rightarrow> None)"
| "tool_input e = None"

definition tool_calls_on :: "string \<Rightarrow> event list \<Rightarrow> nat" where
  "tool_calls_on p evs = length (filter (\<lambda>e. tool_input e = Some p) evs)"

text \<open>
  The width passed on for a file: none in the fast mode, the user's answer in the custom
  mode (the outer \<open>None\<close>: the user cancelled).
\<close>

definition width_for :: "user \<Rightarrow> mode \<Rightarrow> MediaFile \<Rightarrow> nat option option" where
  "width_for u md f = (if md = Custom then map_option Some (select_width u f) else Some None)"

text \<open>A file goes through: the user answers, and the encoder succeeds.\<close>

definition file_ok :: "tools \<Rightarrow> user \<Rightarrow> mode \<Rightarrow> string \<Rightarrow> MediaFile \<Rightarrow> bool" where
  "file_ok t u md outputDir f =
     (case width_for u md f of
        None \<Rightarrow> False
      | Some mw \<Rightarrow> isl (encoder_answer t (encode_event outputDir f mw)) = False)"

definition file_events :: "user \<Rightarrow> mode \<Rightarrow> string \<Rightarrow> MediaFile \<Rightarrow> event list" where
  "file_events u md outputDir f =
     (case width_for u md f of
        None \<Rightarrow> [LogCancel]
      | Some mw \<Rightarrow> [Mkdir (dirname (output_path outputDir f)), encode_event outputDir f mw])"

definition file_size_out :: "tools \<Rightarrow> user \<Rightarrow> mode \<Rightarrow> string \<Rightarrow> MediaFile \<Rightarrow> nat" where
  "file_size_out t u md outputDir f =
     (case width_for u md f of
        None \<Rightarrow> 0
      | Some mw \<Rightarrow> written_size t (encode_event outputDir f mw))"

definition file_stop :: "tools \<Rightarrow> user \<Rightarrow> mode \<Rightarrow> string \<Rightarrow> MediaFile \<Rightarrow> (nat \<times> nat) step" where
  "file_stop t u md outputDir f =
     (case width_for u md f of
        None \<Rightarrow> ProcessExit 0
      | Some mw \<Rightarrow>
          (case encoder_answer t (encode_event outputDir f mw) of
             Inl msg \<Rightarrow> Throw msg
           | Inr sz \<Rightarrow> Ret (0, 0)))"

definition file_write ::
  "tools \<Rightarrow> user \<Rightarrow> mode \<Rightarrow> string \<Rightarrow> (string \<rightharpoonup> string \<times> nat) \<Rightarrow> MediaFile
   \<Rightarrow> (string \<rightharpoonup> string \<times> nat)" where
  "file_write t u md outputDir m f =
     m(output_path outputDir f \<mapsto> (path f, file_size_out t u md outputDir f))"

text \<open>Reading the dimensions of a file: the call, whether it succeeds, and the result.\<close>

definition dims_event :: "MediaFile \<Rightarrow> event" where
  "dims_event f = (if type_f f = TImage then SharpMetadata (path f) else Ffprobe (path f))"

definition dims_ok :: "tools \<Rightarrow> MediaFile \<Rightarrow> bool" where
  "dims_ok t f = (type_f f = TVideo \<or> isl (sharp_metadata t (path f)) = False)"

definition with_dims :: "tools \<Rightarrow> MediaFile \<Rightarrow> MediaFile" where
  "with_dims t f =
     (if type_f f = TImage
      then (case sharp_metadata t (path f) of
              Inl msg \<Rightarrow> f
            | Inr (wd, ht) \<Rightarrow> f\<lparr>width := wd, height := ht\<rparr>)
      else (case ffprobe_dims t (path f) of
              None \<Rightarrow> f\<lparr>width := Some 0, height := Some 0\<rparr>
            | Some (wd, ht) \<Rightarrow> f\<lparr>width := Some wd, height := Some ht\<rparr>))"

text \<open>The mode of a run, the output folder, and the files the loop goes through.\<close>

definition chosen_mode :: "bool \<Rightarrow> user \<Rightarrow> mode option" where
  "chosen_mode isCliMode u = (if isCliMode then Some Fast else select_mode u)"

definition output_dir :: "string \<Rightarrow> string" where
  "output_dir folderPath = join (dirname folderPath) (basename folderPath @ ''-compressed'')"

definition files_of :: "tools \<Rightarrow> mode \<Rightarrow> MediaFile list \<Rightarrow> MediaFile list" where
  "files_of t md media = (if md = Custom then map (with_dims t) media else media)"

definition files_mono :: "tools \<Rightarrow> MediaFile list \<Rightarrow> MediaFile list" where
  "files_mono t media =
     map (with_dims t) (filter (\<lambda>m. type_f m = TImage) media)
     @ map (with_dims t) (filter (\<lambda>m. type_f m = TVideo) media)"

text \<open>The encoder call made for a file, if the user answers.\<close>

definition file_encode :: "user \<Rightarrow> mode \<Rightarrow> string \<Rightarrow> MediaFile \<Rightarrow> event list" where
  "file_encode u md outputDir f =
     (case width_for u md f of None \<Rightarrow> [] | Some mw \<Rightarrow> [encode_event outputDir f mw])"

text \<open>No encoder call among the events has thrown.\<close>

definition no_failed_encode :: "tools \<Rightarrow> event list \<Rightarrow> bool" where
  "no_failed_encode t evs = list_all (\<lambda>e. \<not> (is_encode e \<and> isl (encoder_answer t e))) evs"

section \<open>Example inputs\<close>

text \<open>
  A folder with an image, a subfolder holding a video and a text file, and another image;
  tools that always succeed; a user who takes 400 for images and 0 for videos.
\<close>

definition demo_tree :: "dirent list" where
  "demo_tree =
     [File ''a.PNG'' 3000, Dir ''d'' [File ''v.mov'' 90000, File ''notes.txt'' 10],
      File ''b.jpg'' 2000]"

definition demo_tools :: tools where
  "demo_tools =
     \<lparr>sharp_metadata = (\<lambda>p. Inr (Some 1920, Some 1080)),
      ffprobe_dims = (\<lambda>p. Some (1280, 720)),
      sharp_webp = (\<lambda>i r q out. Inr (case r of None \<Rightarrow> 1000 | Some m \<Rightarrow> 200)),
      ffmpeg = (\<lambda>args. Inr 5000)\<rparr>"

definition demo_user :: "mode \<Rightarrow> user" where
  "demo_user md =
     \<lparr>select_mode = Some md,
      select_width = (\<lambda>f. if type_f f = TImage then Some 400 else Some 0)\<rparr>"

text \<open>Tools whose video encoder throws.\<close>

definition failing_tools :: tools where
  "failing_tools = demo_tools\<lparr>ffmpeg := (\<lambda>args. Inl ''ffmpeg failed'')\<rparr>"




text \<open>
  A user of the images-only version, and tools whose image encoder throws on \<^verbatim>\<open>b.jpg\<close>.
\<close>

definition demo_user_images :: "mode \<Rightarrow> user_images" where
  "demo_user_images md = \<lparr>select_mode_i = Some md, select_width_i = (\<lambda>img. Some 400)\<rparr>"

definition failing_sharp_tools :: tools where
  "failing_sharp_tools =
     demo_tools\<lparr>sharp_webp :=
       (\<lambda>i r q out. if i = ''/home/u/pics/b.jpg'' then Inl ''sharp failed'' else Inr 1000)\<rparr>"


section \<open>Strings and paths: basic facts\<close>

lemma split_at_last:
  "c \<in> set s \<Longrightarrow> s = before_last c s @ c # after_last c s"
proof -
  assume c: "c \<in> set s"
  let ?P = "\<lambda>x. x \<noteq> c"
  have ne: "dropWhile ?P (rev s) \<noteq> []" using c by (simp add: dropWhile_eq_Nil_conv)
  have hd: "hd (dropWhile ?P (rev s)) = c" using hd_dropWhile [OF ne] by simp
  have "rev s = takeWhile ?P (rev s) @ dropWhile ?P (rev s)" by simp
  also have "dropWhile ?P (rev s) = c # tl (dropWhile ?P (rev s))"
    using ne hd by (cases "dropWhile ?P (rev s)") auto
  finally have "rev (rev s) = rev (takeWhile ?P (rev s) @ c # tl (dropWhile ?P (rev s)))"
    by simp
  then show ?thesis by (simp add: before_last_def after_last_def)
qed


lemma after_last_append:
  "c \<in> set n \<Longrightarrow> after_last c (pre @ n) = after_last c n"
  by (simp add: after_last_def takeWhile_append1)

lemma before_last_append:
  "c \<in> set n \<Longrightarrow> before_last c (pre @ n) = pre @ before_last c n"
proof -
  assume c: "c \<in> set n"
  let ?P = "\<lambda>x. x \<noteq> c"
  have ne: "dropWhile ?P (rev n) \<noteq> []" using c by (simp add: dropWhile_eq_Nil_conv)
  have "dropWhile ?P (rev n @ rev pre) = dropWhile ?P (rev n) @ rev pre"
    using c by (intro dropWhile_append1[of c]) auto
  then show ?thesis using ne by (simp add: before_last_def)
qed



lemma relative_join: "relative base (base @ ''/'' @ r) = r"
  by (simp add: relative_def)

section \<open>The walk\<close>

lemma exts_disjoint: "x \<in> set IMAGE_EXTS \<Longrightarrow> x \<notin> set VIDEO_EXTS"
  by (auto simp: IMAGE_EXTS_def VIDEO_EXTS_def)

lemma findMedia_mono_eq: "findMedia_mono entries dir baseDir = findMedia entries dir baseDir"
  by (induction entries dir baseDir rule: findMedia.induct) (simp_all add: Let_def)

lemma findMedia_images:
  "filter (\<lambda>m. type_f m = TImage) (findMedia entries dir baseDir) =
     [media_file p n baseDir sz TImage. (p, n, sz) \<leftarrow> all_files entries dir,
        toLowerCase (extname n) \<in> set IMAGE_EXTS]"
  by (induction entries dir baseDir rule: findMedia.induct)
     (simp_all add: Let_def media_file_def)

lemma findMedia_videos:
  "filter (\<lambda>m. type_f m = TVideo) (findMedia entries dir baseDir) =
     [media_file p n baseDir sz TVideo. (p, n, sz) \<leftarrow> all_files entries dir,
        toLowerCase (extname n) \<in> set VIDEO_EXTS]"
  by (induction entries dir baseDir rule: findMedia.induct)
     (auto simp add: Let_def media_file_def dest: exts_disjoint)

lemma findMedia_concat:
  "findMedia entries dir baseDir =
     concat (map (\<lambda>(p, n, sz).
        if toLowerCase (extname n) \<in> set IMAGE_EXTS then [media_file p n baseDir sz TImage]
        else if toLowerCase (extname n) \<in> set VIDEO_EXTS then [media_file p n baseDir sz TVideo]
        else []) (all_files entries dir))"
  by (induction entries dir baseDir rule: findMedia.induct) (simp_all add: Let_def)


lemma findMedia_member:
  "f \<in> set (findMedia entries dir baseDir) \<Longrightarrow>
   \<exists>p n sz. (p, n, sz) \<in> set (all_files entries dir)
     \<and> f = media_file p n baseDir sz (type_f f)
     \<and> (type_f f = TImage \<longrightarrow> toLowerCase (extname n) \<in> set IMAGE_EXTS)
     \<and> (type_f f = TVideo \<longrightarrow> toLowerCase (extname n) \<in> set VIDEO_EXTS)"
  by (auto simp: findMedia_concat media_file_def split: if_splits)

section \<open>The processing loop\<close>

lemmas io_defs = then_do_def ret_def emit_def exit_io_def mkdir_def call_tool_def write_file_def
  stat_size_def sharp_to_file_def run_ffmpeg_def

lemma processFile_eq:
  "processFile t f od mw w =
     (case encoder_answer t (encode_event od f mw) of
        Inl msg \<Rightarrow>
          (Throw msg,
           w\<lparr>trace := trace w @ [Mkdir (dirname (output_path od f)), encode_event od f mw]\<rparr>)
      | Inr sz \<Rightarrow>
          (Ret sz,
           w\<lparr>trace := trace w @ [Mkdir (dirname (output_path od f)), encode_event od f mw],
             out_files := (out_files w)(output_path od f \<mapsto> (path f, sz))\<rparr>))"
  by (cases "type_f f")
     (auto simp: processFile_def compressImage_def compressVideo_def io_defs Let_def
        encode_event_def output_path_def split: sum.splits option.splits)

lemma process_all_Cons:
  "process_all t u md od (f # rest) tot w =
     (if file_ok t u md od f
      then process_all t u md od rest
             (fst tot + size_f f, snd tot + file_size_out t u md od f)
             (w\<lparr>trace := trace w @ file_events u md od f,
                out_files := file_write t u md od (out_files w) f\<rparr>)
      else (file_stop t u md od f, w\<lparr>trace := trace w @ file_events u md od f\<rparr>))"
  by (cases md)
     (auto simp: processFile_eq getMaxWidthInteractive_def then_do_def ret_def exit_io_def
        emit_def file_ok_def file_events_def file_size_out_def file_stop_def file_write_def
        width_for_def written_size_def
        split: sum.splits option.splits)

lemma process_all_append:
  "\<forall>x\<in>set pre. file_ok t u md od x \<Longrightarrow>
   process_all t u md od (pre @ rest) tot w =
     process_all t u md od rest
       (fst tot + sum_list (map size_f pre),
        snd tot + sum_list (map (file_size_out t u md od) pre))
       (w\<lparr>trace := trace w @ concat (map (file_events u md od) pre),
          out_files := foldl (file_write t u md od) (out_files w) pre\<rparr>)"
proof (induction pre arbitrary: tot w)
  case Nil
  show ?case by simp
next
  case (Cons f pre)
  then show ?case
    by (simp add: process_all_Cons add.assoc del: process_all.simps)
qed

lemma process_all_done:
  "\<forall>x\<in>set files. file_ok t u md od x \<Longrightarrow>
   process_all t u md od files tot w =
     (Ret (fst tot + sum_list (map size_f files),
           snd tot + sum_list (map (file_size_out t u md od) files)),
      w\<lparr>trace := trace w @ concat (map (file_events u md od) files),
        out_files := foldl (file_write t u md od) (out_files w) files\<rparr>)"
  using process_all_append [of files t u md od "[]" tot w] by (simp add: ret_def)

lemma process_all_stop:
  "\<forall>x\<in>set pre. file_ok t u md od x \<Longrightarrow> \<not> file_ok t u md od f \<Longrightarrow>
   process_all t u md od (pre @ f # post) tot w =
     (file_stop t u md od f,
      w\<lparr>trace := trace w @ concat (map (file_events u md od) (pre @ [f])),
        out_files := foldl (file_write t u md od) (out_files w) pre\<rparr>)"
  by (simp add: process_all_append process_all_Cons del: process_all.simps)




lemma then_do_assoc: "then_do (then_do m f) g = then_do m (\<lambda>x. then_do (f x) g)"
  by (rule ext) (simp add: then_do_def split: prod.splits step.splits)

lemma then_do_ret: "then_do (ret x) f = f x"
  by (rule ext) (simp add: then_do_def ret_def)

lemma resize_width_simps:
  "resize_width None = None"
  "resize_width (Some m) = (if 0 < m then Some m else None)"
  by (simp_all add: resize_width_def)

lemma fast_body_mono:
  "(if type_f file = TImage
    then (let outputRelative = replace_ext (relativePath file) ''.webp'';
              outputPath = join outputDir outputRelative
          in then_do (mkdir (dirname outputPath)) (\<lambda>_.
             then_do (sharp_to_file t (path file) None 75 outputPath) (\<lambda>_.
             stat_size outputPath)))
    else (let outputRelative = replace_ext (relativePath file) ''.mp4'';
              outputPath = join outputDir outputRelative
          in then_do (mkdir (dirname outputPath)) (\<lambda>_.
             then_do (compressVideo_mono t (path file) outputPath None) (\<lambda>_.
             stat_size outputPath))))
   = processFile t file outputDir None"
  by (simp add: processFile_def compressImage_def compressVideo_def compressVideo_mono_def
      Let_def then_do_assoc resize_width_simps)

lemma custom_body_mono:
  "(if type_f file = TImage
    then (let outputRelative = replace_ext (relativePath file) ''.webp'';
              outputPath = join outputDir outputRelative
          in then_do (mkdir (dirname outputPath)) (\<lambda>_.
             then_do (sharp_to_file t (path file)
                        (if 0 < maxWidth then Some maxWidth else None) 75 outputPath) (\<lambda>_.
             stat_size outputPath)))
    else (let outputRelative = replace_ext (relativePath file) ''.mp4'';
              outputPath = join outputDir outputRelative
          in then_do (mkdir (dirname outputPath)) (\<lambda>_.
             then_do (compressVideo_mono t (path file) outputPath (Some maxWidth)) (\<lambda>_.
             stat_size outputPath))))
   = processFile t file outputDir (Some maxWidth)"
  by (simp add: processFile_def compressImage_def compressVideo_def compressVideo_mono_def
      Let_def then_do_assoc resize_width_simps)

lemma fast_loop_mono_eq:
  "fast_loop_mono t outputDir files totals = process_all t u Fast outputDir files totals"
proof (induction files arbitrary: totals)
  case Nil
  show ?case by simp
next
  case (Cons f rest)
  show ?case
    by (simp only: fast_loop_mono.simps process_all.simps fast_body_mono Cons.IH)
       (simp add: then_do_ret)
qed

lemma custom_loop_mono_eq:
  "custom_loop_mono t u outputDir files totals = process_all t u Custom outputDir files totals"
proof (induction files arbitrary: totals)
  case Nil
  show ?case by simp
next
  case (Cons f rest)
  show ?case
    by (simp only: custom_loop_mono.simps process_all.simps custom_body_mono Cons.IH)
       (simp add: then_do_ret then_do_assoc getMaxWidthInteractive_def)
qed

section \<open>Reading the dimensions\<close>

lemma loadDimensions_Cons:
  "loadDimensions t (f # media) w =
     (if dims_ok t f
      then (case loadDimensions t media (w\<lparr>trace := trace w @ [dims_event f]\<rparr>) of
              (Ret media', w') \<Rightarrow> (Ret (with_dims t f # media'), w')
            | (Throw e, w') \<Rightarrow> (Throw e, w')
            | (ProcessExit c, w') \<Rightarrow> (ProcessExit c, w'))
      else (case sharp_metadata t (path f) of
              Inl msg \<Rightarrow> (Throw msg, w\<lparr>trace := trace w @ [dims_event f]\<rparr>)
            | Inr d \<Rightarrow> (Ret [], w)))"
  by (cases "type_f f")
     (auto simp: dims_ok_def dims_event_def with_dims_def getVideoDimensions_def
        then_do_def ret_def call_tool_def emit_def
        split: sum.splits option.splits prod.splits step.splits)

lemma loadDimensions_append:
  "\<forall>x\<in>set pre. dims_ok t x \<Longrightarrow>
   loadDimensions t (pre @ rest) w =
     (case loadDimensions t rest (w\<lparr>trace := trace w @ map dims_event pre\<rparr>) of
        (Ret media', w') \<Rightarrow> (Ret (map (with_dims t) pre @ media'), w')
      | (Throw e, w') \<Rightarrow> (Throw e, w')
      | (ProcessExit c, w') \<Rightarrow> (ProcessExit c, w'))"
proof (induction pre arbitrary: w)
  case Nil
  show ?case by (simp split: prod.splits step.splits)
next
  case (Cons f pre)
  then show ?case
    by (simp add: loadDimensions_Cons del: loadDimensions.simps split: prod.splits step.splits)
qed

lemma loadDimensions_done:
  "\<forall>x\<in>set media. dims_ok t x \<Longrightarrow>
   loadDimensions t media w =
     (Ret (map (with_dims t) media), w\<lparr>trace := trace w @ map dims_event media\<rparr>)"
  using loadDimensions_append [of media t "[]" w] by (simp add: ret_def)

lemma loadDimensions_stop:
  "\<forall>x\<in>set pre. dims_ok t x \<Longrightarrow> \<not> dims_ok t f \<Longrightarrow>
   \<exists>msg. sharp_metadata t (path f) = Inl msg \<and> type_f f = TImage \<and>
     loadDimensions t (pre @ f # post) w =
       (Throw msg, w\<lparr>trace := trace w @ map dims_event (pre @ [f])\<rparr>)"
  by (cases "sharp_metadata t (path f)"; cases "type_f f")
     (simp_all add: loadDimensions_append loadDimensions_Cons dims_ok_def
        del: loadDimensions.simps)

lemma image_dims_mono_eq:
  "\<forall>f\<in>set images. type_f f = TImage \<Longrightarrow> image_dims_mono t images = loadDimensions t images"
  by (induction images) (simp_all add: then_do_assoc then_do_ret case_prod_unfold)

lemma video_dims_mono_eq:
  "\<forall>f\<in>set videos. type_f f = TVideo \<Longrightarrow> video_dims_mono t videos = loadDimensions t videos"
  by (induction videos) (simp_all add: then_do_assoc then_do_ret case_prod_unfold)

section \<open>The runs of the refactored program\<close>

lemma program_no_media:
  "findMedia entries folderPath folderPath = [] \<Longrightarrow>
   program t u isCliMode folderPath (Directory entries) =
     (ProcessExit 1,
      \<lparr>trace = [log_error isCliMode ''No images or videos found''], out_files = Map.empty\<rparr>)"
  by (simp add: program_def main_def exit_io_def emit_def init_world_def)

lemma program_no_mode:
  "findMedia entries folderPath folderPath \<noteq> [] \<Longrightarrow> chosen_mode isCliMode u = None \<Longrightarrow>
   program t u isCliMode folderPath (Directory entries) =
     (ProcessExit 0, \<lparr>trace = [LogCancel], out_files = Map.empty\<rparr>)"
  by (auto simp: program_def main_def chosen_mode_def getModeInteractive_def then_do_def
        exit_io_def emit_def init_world_def Let_def split: if_splits)

lemma program_dims_fail:
  assumes "findMedia entries folderPath folderPath = pre @ f # post"
    and "chosen_mode isCliMode u = Some Custom"
    and "\<forall>x\<in>set pre. dims_ok t x" and "\<not> dims_ok t f"
  shows "\<exists>msg. sharp_metadata t (path f) = Inl msg \<and>
     program t u isCliMode folderPath (Directory entries) =
       (ProcessExit 1,
        \<lparr>trace = map dims_event (pre @ [f]) @ [LogError msg], out_files = Map.empty\<rparr>)"
proof -
  obtain msg where m: "sharp_metadata t (path f) = Inl msg"
    and l: "loadDimensions t (pre @ f # post) init_world =
       (Throw msg, init_world\<lparr>trace := trace init_world @ map dims_event (pre @ [f])\<rparr>)"
    using loadDimensions_stop [OF assms(3,4)] by blast
  have "program t u isCliMode folderPath (Directory entries) =
       (ProcessExit 1,
        \<lparr>trace = map dims_event (pre @ [f]) @ [LogError msg], out_files = Map.empty\<rparr>)"
    using assms(1,2) l
    by (auto simp: program_def main_def chosen_mode_def getModeInteractive_def then_do_def
        ret_def emit_def init_world_def Let_def split: if_splits)
  then show ?thesis using m by blast
qed

lemma program_loop:
  assumes "findMedia entries folderPath folderPath \<noteq> []"
    and "chosen_mode isCliMode u = Some md"
    and "md = Custom \<longrightarrow> (\<forall>x\<in>set (findMedia entries folderPath folderPath). dims_ok t x)"
  shows "program t u isCliMode folderPath (Directory entries) =
     (case process_all t u md (output_dir folderPath)
             (files_of t md (findMedia entries folderPath folderPath)) (0, 0)
             \<lparr>trace = (if md = Custom
                        then map dims_event (findMedia entries folderPath folderPath) else [])
                       @ [Mkdir (output_dir folderPath)],
               out_files = Map.empty\<rparr> of
        (Ret totals, w) \<Rightarrow>
          (Ret \<lparr>totalOriginal = fst totals, totalCompressed = snd totals\<rparr>, w)
      | (Throw msg, w) \<Rightarrow> (ProcessExit 1, w\<lparr>trace := trace w @ [LogError msg]\<rparr>)
      | (ProcessExit c, w) \<Rightarrow> (ProcessExit c, w))"
proof (cases md)
  case Fast
  then show ?thesis using assms(1,2)
    by (auto simp: program_def main_def chosen_mode_def getModeInteractive_def then_do_def
        ret_def emit_def init_world_def Let_def output_dir_def files_of_def mkdir_def
        split: if_splits prod.splits step.splits)
next
  case Custom
  then have "loadDimensions t (findMedia entries folderPath folderPath) init_world =
     (Ret (map (with_dims t) (findMedia entries folderPath folderPath)),
      init_world\<lparr>trace := trace init_world
         @ map dims_event (findMedia entries folderPath folderPath)\<rparr>)"
    using assms(3) by (simp add: loadDimensions_done)
  then show ?thesis using assms(1,2) Custom
    by (auto simp: program_def main_def chosen_mode_def getModeInteractive_def then_do_def
        ret_def emit_def init_world_def Let_def output_dir_def files_of_def mkdir_def
        split: if_splits prod.splits step.splits)
qed

lemma file_stop_cases:
  "\<not> file_ok t u md od f \<Longrightarrow>
     (file_stop t u md od f = ProcessExit 0 \<and> width_for u md f = None)
   \<or> (\<exists>mw msg. width_for u md f = Some mw
         \<and> encoder_answer t (encode_event od f mw) = Inl msg
         \<and> file_stop t u md od f = Throw msg)"
  by (auto simp: file_ok_def file_stop_def split: option.splits sum.splits)


section \<open>The runs of the first version with videos\<close>

lemma dims_ok_video: "type_f f = TVideo \<Longrightarrow> dims_ok t f"
  by (simp add: dims_ok_def)

lemma image_dims_mono_done:
  assumes "\<forall>x\<in>set (filter (\<lambda>m. type_f m = TImage) media). dims_ok t x"
  shows "image_dims_mono t (filter (\<lambda>m. type_f m = TImage) media) w =
     (Ret (map (with_dims t) (filter (\<lambda>m. type_f m = TImage) media)),
      w\<lparr>trace := trace w @ map dims_event (filter (\<lambda>m. type_f m = TImage) media)\<rparr>)"
proof -
  have "image_dims_mono t (filter (\<lambda>m. type_f m = TImage) media) =
        loadDimensions t (filter (\<lambda>m. type_f m = TImage) media)"
    by (rule image_dims_mono_eq) simp
  then show ?thesis by (simp add: loadDimensions_done [OF assms])
qed

lemma video_dims_mono_done:
  "video_dims_mono t (filter (\<lambda>m. type_f m = TVideo) media) w =
     (Ret (map (with_dims t) (filter (\<lambda>m. type_f m = TVideo) media)),
      w\<lparr>trace := trace w @ map dims_event (filter (\<lambda>m. type_f m = TVideo) media)\<rparr>)"
proof -
  have "video_dims_mono t (filter (\<lambda>m. type_f m = TVideo) media) =
        loadDimensions t (filter (\<lambda>m. type_f m = TVideo) media)"
    by (rule video_dims_mono_eq) simp
  moreover have "\<forall>x\<in>set (filter (\<lambda>m. type_f m = TVideo) media). dims_ok t x"
    by (simp add: dims_ok_video)
  ultimately show ?thesis by (simp add: loadDimensions_done)
qed

lemma program_mono_no_media:
  "findMedia entries folderPath folderPath = [] \<Longrightarrow>
   program_mono t u folderPath (Directory entries) =
     (ProcessExit 1, \<lparr>trace = [LogError ''No images or videos found''], out_files = Map.empty\<rparr>)"
  by (simp add: program_mono_def main_mono_def findMedia_mono_eq exit_io_def emit_def
      init_world_def)

lemma program_mono_dims_fail:
  assumes "filter (\<lambda>m. type_f m = TImage) (findMedia entries folderPath folderPath)
             = pre @ f # post"
    and "\<forall>x\<in>set pre. dims_ok t x" and "\<not> dims_ok t f"
  shows "\<exists>msg. sharp_metadata t (path f) = Inl msg \<and>
     program_mono t u folderPath (Directory entries) =
       (ProcessExit 1,
        \<lparr>trace = map dims_event (pre @ [f]) @ [LogError msg], out_files = Map.empty\<rparr>)"
proof -
  let ?M = "findMedia entries folderPath folderPath"
  let ?I = "filter (\<lambda>m. type_f m = TImage) ?M"
  obtain msg where m: "sharp_metadata t (path f) = Inl msg"
    and l: "loadDimensions t (pre @ f # post) init_world =
       (Throw msg, init_world\<lparr>trace := trace init_world @ map dims_event (pre @ [f])\<rparr>)"
    using loadDimensions_stop [OF assms(2,3)] by blast
  have i: "image_dims_mono t ?I = loadDimensions t ?I" by (rule image_dims_mono_eq) simp
  have ne: "?M \<noteq> []" using assms(1) by auto
  have "program_mono t u folderPath (Directory entries) =
       (ProcessExit 1,
        \<lparr>trace = map dims_event (pre @ [f]) @ [LogError msg], out_files = Map.empty\<rparr>)"
    using ne l
    by (simp add: program_mono_def main_mono_def findMedia_mono_eq i then_do_def
        emit_def init_world_def Let_def flip: assms(1))
  then show ?thesis using m by blast
qed

lemma program_mono_no_mode:
  assumes "findMedia entries folderPath folderPath \<noteq> []"
    and "\<forall>x\<in>set (filter (\<lambda>m. type_f m = TImage) (findMedia entries folderPath folderPath)).
           dims_ok t x"
    and "select_mode u = None"
  shows "program_mono t u folderPath (Directory entries) =
     (ProcessExit 0,
      \<lparr>trace = map dims_event
                 (filter (\<lambda>m. type_f m = TImage) (findMedia entries folderPath folderPath)
                  @ filter (\<lambda>m. type_f m = TVideo) (findMedia entries folderPath folderPath))
               @ [LogCancel],
        out_files = Map.empty\<rparr>)"
  using assms(1,3)
  by (simp add: program_mono_def main_mono_def findMedia_mono_eq Let_def
      image_dims_mono_done [OF assms(2)] video_dims_mono_done then_do_def exit_io_def
      emit_def init_world_def)

lemma program_mono_loop:
  assumes "findMedia entries folderPath folderPath \<noteq> []"
    and "\<forall>x\<in>set (filter (\<lambda>m. type_f m = TImage) (findMedia entries folderPath folderPath)).
           dims_ok t x"
    and "select_mode u = Some md"
  shows "program_mono t u folderPath (Directory entries) =
     (case process_all t u md (output_dir folderPath)
             (files_mono t (findMedia entries folderPath folderPath)) (0, 0)
             \<lparr>trace = map dims_event
                 (filter (\<lambda>m. type_f m = TImage) (findMedia entries folderPath folderPath)
                  @ filter (\<lambda>m. type_f m = TVideo) (findMedia entries folderPath folderPath))
                 @ [Mkdir (output_dir folderPath)],
               out_files = Map.empty\<rparr> of
        (Ret totals, w) \<Rightarrow>
          (Ret \<lparr>totalOriginal = fst totals, totalCompressed = snd totals,
                savings = int (fst totals) - int (snd totals)\<rparr>, w)
      | (Throw msg, w) \<Rightarrow> (ProcessExit 1, w\<lparr>trace := trace w @ [LogError msg]\<rparr>)
      | (ProcessExit c, w) \<Rightarrow> (ProcessExit c, w))"
  using assms(1,3)
  by (cases md)
     (auto simp add: program_mono_def main_mono_def findMedia_mono_eq Let_def
      image_dims_mono_done [OF assms(2)] video_dims_mono_done then_do_def ret_def emit_def
      init_world_def mkdir_def output_dir_def files_mono_def
      fast_loop_mono_eq [where u = u] custom_loop_mono_eq
      split: prod.splits step.splits)


section \<open>Facts about the events of a run\<close>

lemma with_dims_fields [simp]:
  "path (with_dims t f) = path f"
  "name (with_dims t f) = name f"
  "relativePath (with_dims t f) = relativePath f"
  "size_f (with_dims t f) = size_f f"
  "type_f (with_dims t f) = type_f f"
  by (simp_all add: with_dims_def split: sum.splits option.splits prod.splits)

lemma with_dims_output [simp]:
  "output_path od (with_dims t f) = output_path od f"
  "encode_event od (with_dims t f) mw = encode_event od f mw"
  "dims_event (with_dims t f) = dims_event f"
  by (simp_all add: output_path_def encode_event_def dims_event_def)

lemma is_encode_encode_event [simp]: "is_encode (encode_event od f mw)"
  by (simp add: encode_event_def)

lemma is_encode_dims_event [simp]: "\<not> is_encode (dims_event f)"
  by (simp add: dims_event_def)

lemma filter_encode_file_events [simp]:
  "filter is_encode (file_events u md od f) = file_encode u md od f"
  by (simp add: file_events_def file_encode_def split: option.splits)

lemma filter_encode_concat:
  "filter is_encode (concat (map (file_events u md od) fs)) = concat (map (file_encode u md od) fs)"
  by (induction fs) simp_all

lemma filter_encode_dims [simp]: "filter is_encode (map dims_event fs) = []"
  by (induction fs) simp_all


lemma with_dims_comp [simp]:
  "size_f \<circ> with_dims t = size_f"
  "path \<circ> with_dims t = path"
  "type_f \<circ> with_dims t = type_f"
  by (simp_all add: fun_eq_iff)

lemma filter_encode_dims_if [simp]:
  "filter is_encode (if c then map dims_event fs else []) = []"
  by simp

lemma sum_size_files_of [simp]:
  "sum_list (map size_f (files_of t md fs)) = sum_list (map size_f fs)"
  by (simp add: files_of_def)

lemma sum_partition_type:
  "sum_list (map g (filter (\<lambda>m. type_f m = TImage) fs))
   + sum_list (map g (filter (\<lambda>m. type_f m = TVideo) fs)) = (sum_list (map g fs) :: nat)"
proof (induction fs)
  case Nil
  show ?case by simp
next
  case (Cons f fs)
  then show ?case by (cases "type_f f") simp_all
qed

lemma sum_size_files_mono [simp]:
  "sum_list (map size_f (files_mono t fs)) = sum_list (map size_f fs)"
  using sum_partition_type [of size_f fs] by (simp add: files_mono_def)

lemma tool_calls_on_append [simp]:
  "tool_calls_on p (a @ b) = tool_calls_on p a + tool_calls_on p b"
  by (simp add: tool_calls_on_def)

lemma tool_calls_on_Nil [simp]: "tool_calls_on p [] = 0"
  by (simp add: tool_calls_on_def)

lemma tool_input_events [simp]:
  "tool_input (dims_event f) = Some (path f)"
  "tool_input (encode_event od f mw) = Some (path f)"
  by (simp_all add: dims_event_def encode_event_def)


lemma file_ok_width: "file_ok t u md od f \<Longrightarrow> \<exists>mw. width_for u md f = Some mw"
  by (auto simp: file_ok_def split: option.splits)


lemma tool_calls_file_events_rest:
  "\<forall>f\<in>set fs. file_ok t u md od f \<Longrightarrow>
   tool_calls_on p (filter (\<lambda>e. \<not> is_encode e) (concat (map (file_events u md od) fs))) = 0"
proof (induction fs)
  case Nil
  show ?case by simp
next
  case (Cons f fs)
  then obtain mw where "width_for u md f = Some mw" using file_ok_width by fastforce
  with Cons show ?case by (simp add: file_events_def tool_calls_on_def)
qed

lemma count_path_with_dims [simp]:
  "length (filter (\<lambda>f. path f = p) (map (with_dims t) fs)) = length (filter (\<lambda>f. path f = p) fs)"
  by (simp add: comp_def)

lemma count_path_files_of [simp]:
  "length (filter (\<lambda>f. path f = p) (files_of t md fs)) = length (filter (\<lambda>f. path f = p) fs)"
  by (simp add: files_of_def comp_def)

lemma count_partition_type:
  "length (filter P (filter (\<lambda>m. type_f m = TImage) fs))
   + length (filter P (filter (\<lambda>m. type_f m = TVideo) fs)) = length (filter P fs)"
proof (induction fs)
  case Nil
  show ?case by simp
next
  case (Cons f fs)
  then show ?case by (cases "type_f f") simp_all
qed

lemma count_path_files_mono [simp]:
  "length (filter (\<lambda>f. path f = p) (files_mono t fs)) = length (filter (\<lambda>f. path f = p) fs)"
  using count_partition_type [of "\<lambda>f. path f = p" fs] by (simp add: files_mono_def comp_def)

lemma filter_not_encode_dims [simp]:
  "filter (\<lambda>e. \<not> is_encode e) (map dims_event fs) = map dims_event fs"
  by (induction fs) simp_all


lemma tool_calls_on_Cons [simp]:
  "tool_calls_on p (e # es) = (if tool_input e = Some p then 1 else 0) + tool_calls_on p es"
  by (simp add: tool_calls_on_def)




section \<open>Paths of media files and of their outputs\<close>

lemma all_files_path:
  "(p, n, sz) \<in> set (all_files entries dir) \<Longrightarrow> \<exists>mid. p = join dir (mid @ n)"
proof (induction entries dir rule: all_files.induct)
  case (1 dir)
  then show ?case by simp
next
  case (2 d sub entries dir)
  from 2 consider "(p, n, sz) \<in> set (all_files sub (join dir d))"
    | "(p, n, sz) \<in> set (all_files entries dir)" by auto
  then show ?case
  proof cases
    case 1
    then obtain mid where "p = join (join dir d) (mid @ n)" using 2 by blast
    then have "p = join dir ((d @ ''/'' @ mid) @ n)" by (simp add: join_def)
    then show ?thesis by blast
  next
    case 2
    then show ?thesis using "2.IH" by blast
  qed
next
  case (3 m s entries dir)
  then show ?case by (auto simp: join_def)
qed

lemma classified_name:
  assumes "toLowerCase (extname n) \<in> set IMAGE_EXTS \<union> set VIDEO_EXTS"
  shows "CHR ''.'' \<in> set n" and "after_last CHR ''.'' n \<noteq> []"
    and "n = before_last CHR ''.'' n @ extname n"
proof -
  have "\<forall>x\<in>set IMAGE_EXTS \<union> set VIDEO_EXTS. 4 \<le> length x"
    by (simp add: IMAGE_EXTS_def VIDEO_EXTS_def)
  then have "4 \<le> length (toLowerCase (extname n))" using assms by blast
  then have len: "4 \<le> length (extname n)" by (simp add: toLowerCase_def)
  then have ne: "extname n \<noteq> []" by auto
  then show dot: "CHR ''.'' \<in> set n" by (auto simp: extname_def split: if_splits)
  have ext: "extname n = CHR ''.'' # after_last CHR ''.'' n"
    using ne by (auto simp: extname_def split: if_splits)
  then show "after_last CHR ''.'' n \<noteq> []" using len by auto
  show "n = before_last CHR ''.'' n @ extname n"
    using split_at_last [OF dot] ext by simp
qed

lemma replace_ext_classified:
  assumes "toLowerCase (extname n) \<in> set IMAGE_EXTS \<union> set VIDEO_EXTS"
  shows "replace_ext (mid @ n) ext = mid @ before_last CHR ''.'' n @ ext"
  using classified_name(1,2) [OF assms]
  by (simp add: replace_ext_def after_last_append before_last_append)

lemma findMedia_file:
  assumes "f \<in> set (findMedia entries folderPath folderPath)"
  shows "\<exists>mid. path f = join folderPath (mid @ name f)
     \<and> relativePath f = mid @ name f
     \<and> relativePath f = relative folderPath (path f)
     \<and> name f = before_last CHR ''.'' (name f) @ extname (name f)
     \<and> (type_f f = TImage) = (toLowerCase (extname (name f)) \<in> set IMAGE_EXTS)
     \<and> (type_f f = TVideo) = (toLowerCase (extname (name f)) \<in> set VIDEO_EXTS)
     \<and> width f = None \<and> height f = None
     \<and> (\<forall>od. output_path od f
          = join od (mid @ before_last CHR ''.'' (name f)
                      @ (if type_f f = TImage then ''.webp'' else ''.mp4'')))"
proof -
  from findMedia_member [OF assms] obtain p n sz where
    af: "(p, n, sz) \<in> set (all_files entries folderPath)"
    and f: "f = media_file p n folderPath sz (type_f f)"
    and ty: "type_f f = TImage \<longrightarrow> toLowerCase (extname n) \<in> set IMAGE_EXTS"
       "type_f f = TVideo \<longrightarrow> toLowerCase (extname n) \<in> set VIDEO_EXTS"
    by blast
  from all_files_path [OF af] obtain mid where p: "p = join folderPath (mid @ n)" by blast
  have nm: "name f = n" and pf: "path f = p"
    and rel: "relativePath f = relative folderPath p"
    and dims: "width f = None" "height f = None"
    by (subst f, simp add: media_file_def)+
  have rp: "relativePath f = mid @ n" using rel p relative_join by (simp add: join_def)
  have cl: "toLowerCase (extname n) \<in> set IMAGE_EXTS \<union> set VIDEO_EXTS"
    using ty by (cases "type_f f") auto
  have iff: "(type_f f = TImage) = (toLowerCase (extname n) \<in> set IMAGE_EXTS)"
    "(type_f f = TVideo) = (toLowerCase (extname n) \<in> set VIDEO_EXTS)"
    using ty exts_disjoint by (cases "type_f f"; auto)+
  show ?thesis
    using p nm pf rel rp iff dims classified_name(3) [OF cl] replace_ext_classified [OF cl]
    by (intro exI [of _ mid]) (simp add: output_path_def)
qed






lemma image_output_files_of [simp]:
  "output_path od ` set (files_of t md M) = output_path od ` set M"
  by (auto simp: files_of_def image_image)

lemma image_output_files_mono [simp]:
  "output_path od ` set (files_mono t M) = output_path od ` set M"
proof -
  have "set (files_mono t M) = with_dims t ` set M"
    by (auto simp: files_mono_def intro: media_type.exhaust)
  then show ?thesis by (simp add: image_image)
qed

section \<open>The shape of a trace\<close>

lemma no_failed_simps [simp]:
  "no_failed_encode t []"
  "no_failed_encode t (e # es) =
     (\<not> (is_encode e \<and> isl (encoder_answer t e)) \<and> no_failed_encode t es)"
  "no_failed_encode t (a @ b) = (no_failed_encode t a \<and> no_failed_encode t b)"
  by (simp_all add: no_failed_encode_def)

lemma no_failed_dims [simp]: "no_failed_encode t (map dims_event fs)"
  by (induction fs) simp_all

lemma no_failed_file_events:
  "file_ok t u md od f \<Longrightarrow> no_failed_encode t (file_events u md od f)"
  by (auto simp: file_ok_def file_events_def split: option.splits)

lemma no_failed_concat:
  "\<forall>f\<in>set fs. file_ok t u md od f \<Longrightarrow>
   no_failed_encode t (concat (map (file_events u md od) fs))"
  by (induction fs) (simp_all add: no_failed_file_events)

lemma inputs_file_encode:
  "\<forall>f\<in>set fs. file_ok t u md od f \<Longrightarrow>
   map tool_input (concat (map (file_encode u md od) fs)) = map (\<lambda>f. Some (path f)) fs"
proof (induction fs)
  case Nil
  show ?case by simp
next
  case (Cons f fs)
  then obtain mw where "width_for u md f = Some mw" using file_ok_width by fastforce
  with Cons show ?case by (simp add: file_encode_def)
qed

lemma no_failed_nth:
  "no_failed_encode t T \<Longrightarrow> i < length T \<Longrightarrow> is_encode (T ! i) \<Longrightarrow>
   encoder_answer t (T ! i) \<noteq> Inl msg"
  by (auto simp: no_failed_encode_def list_all_length)

lemma failed_encode_is_last:
  assumes "no_failed_encode t tr
     \<or> (\<exists>T e m. tr = T @ [e, LogError m] \<and> no_failed_encode t T \<and> is_encode e
           \<and> encoder_answer t e = Inl m \<and> res = ProcessExit 1)"
    and "i < length tr" and "is_encode (tr ! i)" and "encoder_answer t (tr ! i) = Inl msg"
  shows "res = ProcessExit 1 \<and> tr = take (Suc i) tr @ [LogError msg]"
  using assms(1)
proof (elim disjE exE conjE)
  assume "no_failed_encode t tr"
  then show ?thesis using no_failed_nth assms(2-4) by blast
next
  fix T e m
  assume tr: "tr = T @ [e, LogError m]" and nf: "no_failed_encode t T"
    and e: "is_encode e" "encoder_answer t e = Inl m" and res: "res = ProcessExit 1"
  have "\<not> i < length T"
    using no_failed_nth [OF nf, of i msg] assms(3,4) by (auto simp: tr nth_append)
  moreover have "i \<noteq> Suc (length T)"
    using assms(3) by (auto simp: tr nth_append)
  ultimately have i: "i = length T" using assms(2) by (simp add: tr)
  then have "msg = m" using assms(4) e by (simp add: tr nth_append)
  then show ?thesis using res i by (simp add: tr)
qed

lemma loop_shape:
  assumes run: "process_all t u md od F tot W = (res, w)"
  shows "(\<exists>n\<le>length F.
            map tool_input (filter is_encode (trace w))
              = map tool_input (filter is_encode (trace W)) @ map (\<lambda>f. Some (path f)) (take n F)
            \<and> (\<forall>x. res = Ret x \<longrightarrow> n = length F))
       \<and> (no_failed_encode t (trace W) \<longrightarrow>
            (\<forall>m. res \<noteq> Throw m) \<and> no_failed_encode t (trace w)
          \<or> (\<exists>T e m. res = Throw m \<and> trace w = T @ [e] \<and> no_failed_encode t T \<and> is_encode e
                \<and> encoder_answer t e = Inl m))"
proof (cases "\<forall>f\<in>set F. file_ok t u md od f")
  case True
  have res: "res = Ret (fst tot + sum_list (map size_f F),
                        snd tot + sum_list (map (file_size_out t u md od) F))"
    and w: "trace w = trace W @ concat (map (file_events u md od) F)"
    using run by (auto simp: process_all_done [OF True])
  have "map tool_input (filter is_encode (trace w))
          = map tool_input (filter is_encode (trace W)) @ map (\<lambda>f. Some (path f)) (take (length F) F)"
    by (simp add: w filter_encode_concat inputs_file_encode [OF True])
  then show ?thesis using res w no_failed_concat [OF True] by auto
next
  case False
  then obtain pre f post where
    F: "F = pre @ f # post" and nok: "\<not> file_ok t u md od f"
    and pre: "\<forall>x\<in>set pre. file_ok t u md od x"
    using split_list_first_prop [of F "\<lambda>f. \<not> file_ok t u md od f"] by auto
  have res: "res = file_stop t u md od f"
    and w: "trace w = trace W @ concat (map (file_events u md od) pre) @ file_events u md od f"
    using run by (auto simp: F process_all_stop [OF pre nok])
  from file_stop_cases [OF nok] show ?thesis
  proof (elim disjE exE conjE)
    assume stop: "file_stop t u md od f = ProcessExit 0" and wd: "width_for u md f = None"
    have "map tool_input (filter is_encode (trace w))
          = map tool_input (filter is_encode (trace W))
            @ map (\<lambda>f. Some (path f)) (take (length pre) F)"
      by (simp add: w F filter_encode_concat inputs_file_encode [OF pre] file_encode_def wd)
    moreover have "length pre \<le> length F" by (simp add: F)
    moreover have "no_failed_encode t (trace W) \<longrightarrow> no_failed_encode t (trace w)"
      by (simp add: w no_failed_concat [OF pre] file_events_def wd)
    ultimately show ?thesis using res stop by auto
  next
    fix mw msg
    assume wd: "width_for u md f = Some mw"
      and ans: "encoder_answer t (encode_event od f mw) = Inl msg"
      and stop: "file_stop t u md od f = Throw msg"
    have "map tool_input (filter is_encode (trace w))
          = map tool_input (filter is_encode (trace W))
            @ map (\<lambda>f. Some (path f)) (take (Suc (length pre)) F)"
      by (simp add: w F filter_encode_concat inputs_file_encode [OF pre] file_encode_def wd)
    moreover have "Suc (length pre) \<le> length F" by (simp add: F)
    moreover have "trace w = (trace W @ concat (map (file_events u md od) pre)
        @ [Mkdir (dirname (output_path od f))]) @ [encode_event od f mw]"
      by (simp add: w file_events_def wd)
    moreover have "no_failed_encode t (trace W) \<longrightarrow>
       no_failed_encode t (trace W @ concat (map (file_events u md od) pre)
        @ [Mkdir (dirname (output_path od f))])"
      by (simp add: no_failed_concat [OF pre])
    ultimately show ?thesis using res stop ans by (metis is_encode_encode_event step.distinct(1))
  qed
qed

lemma files_of_take [simp]:
  "length (files_of t md M) = length M"
  "map (\<lambda>f. Some (path f)) (take n (files_of t md M)) = map (\<lambda>f. Some (path f)) (take n M)"
  by (simp_all add: files_of_def take_map comp_def)

lemma files_mono_take [simp]:
  "length (files_mono t M)
     = length (filter (\<lambda>m. type_f m = TImage) M @ filter (\<lambda>m. type_f m = TVideo) M)"
  "map (\<lambda>f. Some (path f)) (take n (files_mono t M))
     = map (\<lambda>f. Some (path f))
         (take n (filter (\<lambda>m. type_f m = TImage) M @ filter (\<lambda>m. type_f m = TVideo) M))"
proof -
  have "files_mono t M
        = map (with_dims t) (filter (\<lambda>m. type_f m = TImage) M @ filter (\<lambda>m. type_f m = TVideo) M)"
    by (simp add: files_mono_def)
  then show "length (files_mono t M)
     = length (filter (\<lambda>m. type_f m = TImage) M @ filter (\<lambda>m. type_f m = TVideo) M)"
    and "map (\<lambda>f. Some (path f)) (take n (files_mono t M))
     = map (\<lambda>f. Some (path f))
         (take n (filter (\<lambda>m. type_f m = TImage) M @ filter (\<lambda>m. type_f m = TVideo) M))"
    by (simp_all add: take_map comp_def del: map_append)
qed

lemma is_encode_log_error [simp]: "\<not> is_encode (log_error c msg)"
  by (simp add: log_error_def)

lemma program_shape:
  assumes run: "program t u isCliMode folderPath (Directory entries) = (res, w)"
  shows "(\<exists>n\<le>length (findMedia entries folderPath folderPath).
            map tool_input (filter is_encode (trace w))
              = map (\<lambda>f. Some (path f)) (take n (findMedia entries folderPath folderPath))
            \<and> (\<forall>r. res = Ret r \<longrightarrow> n = length (findMedia entries folderPath folderPath)))
       \<and> (no_failed_encode t (trace w)
          \<or> (\<exists>T e m. trace w = T @ [e, LogError m] \<and> no_failed_encode t T \<and> is_encode e
                \<and> encoder_answer t e = Inl m \<and> res = ProcessExit 1))"
proof -
  let ?M = "findMedia entries folderPath folderPath"
  let ?od = "output_dir folderPath"
  consider (empty) "?M = []"
    | (nomode) "?M \<noteq> []" "chosen_mode isCliMode u = None"
    | (dims) "?M \<noteq> []" "chosen_mode isCliMode u = Some Custom"
        "\<not> (\<forall>x\<in>set ?M. dims_ok t x)"
    | (loop) md where "?M \<noteq> []" "chosen_mode isCliMode u = Some md"
        "md = Custom \<longrightarrow> (\<forall>x\<in>set ?M. dims_ok t x)"
    by (cases "chosen_mode isCliMode u"; cases "?M = []"; blast)
  then show ?thesis
  proof cases
    case empty
    then show ?thesis using run by (auto simp: program_no_media)
  next
    case nomode
    then show ?thesis using run by (auto simp: program_no_mode)
  next
    case dims
    then obtain pre f post where
      "?M = pre @ f # post" "\<not> dims_ok t f" "\<forall>x\<in>set pre. dims_ok t x"
      using split_list_first_prop [of ?M "\<lambda>f. \<not> dims_ok t f"] by auto
    then obtain msg where "program t u isCliMode folderPath (Directory entries) =
       (ProcessExit 1,
        \<lparr>trace = map dims_event (pre @ [f]) @ [LogError msg], out_files = Map.empty\<rparr>)"
      using program_dims_fail [of entries folderPath pre f post isCliMode u t] dims by auto
    then show ?thesis using run by auto
  next
    case loop
    let ?W = "\<lparr>trace = (if md = Custom then map dims_event ?M else []) @ [Mkdir ?od],
               out_files = Map.empty\<rparr>"
    obtain res0 w0 where pa: "process_all t u md ?od (files_of t md ?M) (0, 0) ?W = (res0, w0)"
      by (cases "process_all t u md ?od (files_of t md ?M) (0, 0) ?W") auto
    have prog: "(res, w) = (case res0 of
          Ret totals \<Rightarrow> (Ret \<lparr>totalOriginal = fst totals, totalCompressed = snd totals\<rparr>, w0)
        | Throw msg \<Rightarrow> (ProcessExit 1, w0\<lparr>trace := trace w0 @ [LogError msg]\<rparr>)
        | ProcessExit c \<Rightarrow> (ProcessExit c, w0))"
      using run program_loop [OF loop] pa by (simp split: step.splits)
    have W: "filter is_encode (trace ?W) = []" "no_failed_encode t (trace ?W)" by simp_all
    from loop_shape [OF pa] W obtain n where
      n: "n \<le> length ?M"
        "map tool_input (filter is_encode (trace w0)) = map (\<lambda>f. Some (path f)) (take n ?M)"
        "\<forall>x. res0 = Ret x \<longrightarrow> n = length ?M"
      and sh: "(\<forall>m. res0 \<noteq> Throw m) \<and> no_failed_encode t (trace w0)
          \<or> (\<exists>T e m. res0 = Throw m \<and> trace w0 = T @ [e] \<and> no_failed_encode t T \<and> is_encode e
                \<and> encoder_answer t e = Inl m)"
      by auto
    show ?thesis
    proof (cases res0)
      case (Ret x)
      then show ?thesis using prog n sh by auto
    next
      case (Throw m)
      then show ?thesis using prog n sh by auto
    next
      case (ProcessExit c)
      then show ?thesis using prog n sh by auto
    qed
  qed
qed

lemma program_mono_shape:
  assumes run: "program_mono t u folderPath (Directory entries) = (res, w)"
  shows "(\<exists>n\<le>length (findMedia entries folderPath folderPath).
            map tool_input (filter is_encode (trace w))
              = map (\<lambda>f. Some (path f))
                  (take n (filter (\<lambda>m. type_f m = TImage) (findMedia entries folderPath folderPath)
                         @ filter (\<lambda>m. type_f m = TVideo)
                             (findMedia entries folderPath folderPath)))
            \<and> (\<forall>r. res = Ret r \<longrightarrow> n = length (findMedia entries folderPath folderPath)))
       \<and> (no_failed_encode t (trace w)
          \<or> (\<exists>T e m. trace w = T @ [e, LogError m] \<and> no_failed_encode t T \<and> is_encode e
                \<and> encoder_answer t e = Inl m \<and> res = ProcessExit 1))"
proof -
  let ?M = "findMedia entries folderPath folderPath"
  let ?I = "filter (\<lambda>m. type_f m = TImage) ?M"
  let ?V = "filter (\<lambda>m. type_f m = TVideo) ?M"
  let ?od = "output_dir folderPath"
  have len: "length (?I @ ?V) = length ?M"
    using count_partition_type [of "\<lambda>f. True" ?M] by simp
  consider (empty) "?M = []"
    | (dims) "\<not> (\<forall>x\<in>set ?I. dims_ok t x)"
    | (nomode) "?M \<noteq> []" "\<forall>x\<in>set ?I. dims_ok t x" "select_mode u = None"
    | (loop) md where "?M \<noteq> []" "\<forall>x\<in>set ?I. dims_ok t x" "select_mode u = Some md"
    by (cases "select_mode u"; cases "?M = []"; blast)
  then show ?thesis
  proof cases
    case empty
    then show ?thesis using run by (auto simp: program_mono_no_media)
  next
    case dims
    then obtain pre f post where
      "?I = pre @ f # post" "\<not> dims_ok t f" "\<forall>x\<in>set pre. dims_ok t x"
      using split_list_first_prop [of ?I "\<lambda>f. \<not> dims_ok t f"] by auto
    then obtain msg where "program_mono t u folderPath (Directory entries) =
       (ProcessExit 1,
        \<lparr>trace = map dims_event (pre @ [f]) @ [LogError msg], out_files = Map.empty\<rparr>)"
      using program_mono_dims_fail [of entries folderPath pre f post t u] by auto
    then show ?thesis using run by auto
  next
    case nomode
    then show ?thesis using run by (auto simp: program_mono_no_mode)
  next
    case loop
    let ?W = "\<lparr>trace = map dims_event (?I @ ?V) @ [Mkdir ?od], out_files = Map.empty\<rparr>"
    obtain res0 w0 where pa: "process_all t u md ?od (files_mono t ?M) (0, 0) ?W = (res0, w0)"
      by (cases "process_all t u md ?od (files_mono t ?M) (0, 0) ?W") auto
    have prog: "(res, w) = (case res0 of
          Ret totals \<Rightarrow> (Ret \<lparr>totalOriginal = fst totals, totalCompressed = snd totals,
                             savings = int (fst totals) - int (snd totals)\<rparr>, w0)
        | Throw msg \<Rightarrow> (ProcessExit 1, w0\<lparr>trace := trace w0 @ [LogError msg]\<rparr>)
        | ProcessExit c \<Rightarrow> (ProcessExit c, w0))"
      using run program_mono_loop [OF loop] pa by (simp split: step.splits)
    have W: "filter is_encode (trace ?W) = []" "no_failed_encode t (trace ?W)" by simp_all
    from loop_shape [OF pa] W len obtain n where
      n: "n \<le> length ?M"
        "map tool_input (filter is_encode (trace w0))
           = map (\<lambda>f. Some (path f)) (take n (?I @ ?V))"
        "\<forall>x. res0 = Ret x \<longrightarrow> n = length ?M"
      and sh: "(\<forall>m. res0 \<noteq> Throw m) \<and> no_failed_encode t (trace w0)
          \<or> (\<exists>T e m. res0 = Throw m \<and> trace w0 = T @ [e] \<and> no_failed_encode t T \<and> is_encode e
                \<and> encoder_answer t e = Inl m)"
      by (auto simp del: map_append)
    show ?thesis
    proof (cases res0)
      case (Ret x)
      then show ?thesis using prog n sh by auto
    next
      case (Throw m)
      then show ?thesis using prog n sh by auto
    next
      case (ProcessExit c)
      then show ?thesis using prog n sh by auto
    qed
  qed
qed

section \<open>The example runs\<close>

lemmas string_defs = toLowerCase_def extname_def lower_char_def after_last_def before_last_def
  replace_ext_def join_def relative_def dirname_def basename_def IMAGE_EXTS_def VIDEO_EXTS_def

lemmas run_defs = program_def program_mono_def main_def main_mono_def media_file_def
  then_do_def ret_def emit_def exit_io_def mkdir_def call_tool_def write_file_def stat_size_def
  sharp_to_file_def run_ffmpeg_def init_world_def getModeInteractive_def
  getMaxWidthInteractive_def getVideoDimensions_def processFile_def compressImage_def
  compressVideo_def compressVideo_mono_def resize_width_def log_error_def Let_def

lemma demo_media:
  "findMedia demo_tree ''/home/u/pics'' ''/home/u/pics'' =
   [media_file ''/home/u/pics/a.PNG'' ''a.PNG'' ''/home/u/pics'' 3000 TImage,
    media_file ''/home/u/pics/d/v.mov'' ''v.mov'' ''/home/u/pics'' 90000 TVideo,
    media_file ''/home/u/pics/b.jpg'' ''b.jpg'' ''/home/u/pics'' 2000 TImage]"
  by (simp add: demo_tree_def string_defs Let_def)

lemma show_nat_400: "show_nat 400 = ''400''"
  by (simp add: show_nat.simps [of 400] show_nat.simps [of 40] show_nat.simps [of 4])





lemma demo_fail_run:
  "fst (program failing_tools (demo_user Fast) c ''/home/u/pics'' (Directory demo_tree))
     = ProcessExit 1
   \<and> trace (snd (program failing_tools (demo_user Fast) c ''/home/u/pics'' (Directory demo_tree)))
     = [Mkdir ''/home/u/pics-compressed'',
        Mkdir ''/home/u/pics-compressed'',
        SharpWebp ''/home/u/pics/a.PNG'' None 75 ''/home/u/pics-compressed/a.webp'',
        Mkdir ''/home/u/pics-compressed/d'',
        Ffmpeg [''-y'', ''-i'', ''/home/u/pics/d/v.mov'', ''-c:v'', ''libx264'', ''-crf'', ''28'',
                ''-preset'', ''fast'', ''-c:a'', ''aac'', ''-b:a'', ''128k'',
                ''/home/u/pics-compressed/d/v.mp4''],
        LogError ''ffmpeg failed'']"
  by (simp add: run_defs demo_media demo_tools_def failing_tools_def demo_user_def)
     (simp add: media_file_def string_defs)

lemma demo_fail_run_mono:
  "fst (program_mono failing_tools (demo_user Fast) ''/home/u/pics'' (Directory demo_tree))
     = ProcessExit 1
   \<and> trace (snd (program_mono failing_tools (demo_user Fast) ''/home/u/pics''
                    (Directory demo_tree)))
     = [SharpMetadata ''/home/u/pics/a.PNG'',
        SharpMetadata ''/home/u/pics/b.jpg'',
        Ffprobe ''/home/u/pics/d/v.mov'',
        Mkdir ''/home/u/pics-compressed'',
        Mkdir ''/home/u/pics-compressed'',
        SharpWebp ''/home/u/pics/a.PNG'' None 75 ''/home/u/pics-compressed/a.webp'',
        Mkdir ''/home/u/pics-compressed'',
        SharpWebp ''/home/u/pics/b.jpg'' None 75 ''/home/u/pics-compressed/b.webp'',
        Mkdir ''/home/u/pics-compressed/d'',
        Ffmpeg [''-y'', ''-i'', ''/home/u/pics/d/v.mov'', ''-c:v'', ''libx264'', ''-crf'', ''28'',
                ''-preset'', ''fast'', ''-c:a'', ''aac'', ''-b:a'', ''128k'',
                ''/home/u/pics-compressed/d/v.mp4''],
        LogError ''ffmpeg failed'']"
  by (simp add: run_defs findMedia_mono_eq demo_media demo_tools_def failing_tools_def
        demo_user_def)
     (simp add: media_file_def string_defs)

section \<open>Two inputs, one output\<close>






section \<open>The order of the files does not change the outputs\<close>



lemma fast_ignores_dims [simp]:
  "file_ok t u Fast od (with_dims t' f) = file_ok t u Fast od f"
  "file_size_out t u Fast od (with_dims t' f) = file_size_out t u Fast od f"
  "file_write t u Fast od m (with_dims t' f) = file_write t u Fast od m f"
  by (simp_all add: file_ok_def file_size_out_def file_write_def width_for_def)









section \<open>A run that is cancelled\<close>




section \<open>The runs of the images-only version\<close>

lemma to_image_to_media [simp]: "to_image (to_media img) = img"
  by (simp add: to_image_def to_media_def)

lemma to_media_fields [simp]:
  "path (to_media img) = path_i img"
  "relativePath (to_media img) = relativePath_i img"
  "size_f (to_media img) = size_i img"
  "type_f (to_media img) = TImage"
  by (simp_all add: to_media_def)

lemma findImages_eq:
  "map to_media (findImages entries dir baseDir)
   = filter (\<lambda>m. type_f m = TImage) (findMedia entries dir baseDir)"
  by (induction entries dir baseDir rule: findMedia.induct)
     (auto simp: Let_def to_media_def media_file_def dest: exts_disjoint)

lemma fast_loop_images_eq:
  "fast_loop_images t outputDir imgs totals
   = process_all t u Fast outputDir (map to_media imgs) totals"
proof (induction imgs arbitrary: totals)
  case Nil
  show ?case by simp
next
  case (Cons img rest)
  show ?case
    by (simp add: Cons.IH processFile_def compressImage_def then_do_assoc then_do_ret
        resize_width_simps Let_def)
qed

lemma custom_loop_images_eq:
  "custom_loop_images t u outputDir imgs totals
   = process_all t (to_user u) Custom outputDir (map to_media imgs) totals"
proof (induction imgs arbitrary: totals)
  case Nil
  show ?case by simp
next
  case (Cons img rest)
  show ?case
    by (simp add: Cons.IH processFile_def compressImage_def then_do_assoc then_do_ret
        resize_width_simps Let_def getMaxWidthInteractive_def to_user_def)
qed

lemma dims_images_eq:
  "dims_images t imgs w =
     (case loadDimensions t (map to_media imgs) w of
        (Ret fs, w') \<Rightarrow> (Ret (map to_image fs), w')
      | (Throw e, w') \<Rightarrow> (Throw e, w')
      | (ProcessExit c, w') \<Rightarrow> (ProcessExit c, w'))"
proof (induction imgs arbitrary: w)
  case Nil
  show ?case by (simp add: ret_def)
next
  case (Cons img rest)
  show ?case
    by (simp add: Cons.IH then_do_def ret_def call_tool_def to_media_def to_image_def
        split: sum.splits prod.splits step.splits)
qed

lemma to_media_to_image: "type_f f = TImage \<Longrightarrow> to_media (to_image f) = f"
  by (simp add: to_media_def to_image_def)

lemma to_media_with_dims:
  "map to_media (map to_image (map (with_dims t) (map to_media imgs)))
   = map (with_dims t) (map to_media imgs)"
  by (simp add: to_media_to_image)


lemma program_images_no_images:
  "findImages entries folderPath folderPath = [] \<Longrightarrow>
   program_images t u folderPath (Directory entries) =
     (ProcessExit 1, \<lparr>trace = [LogError ''No images found''], out_files = Map.empty\<rparr>)"
  by (simp add: program_images_def main_images_def exit_io_def emit_def init_world_def)

lemma program_images_dims_fail:
  assumes "map to_media (findImages entries folderPath folderPath) = pre @ f # post"
    and "\<forall>x\<in>set pre. dims_ok t x" and "\<not> dims_ok t f"
  shows "\<exists>msg. sharp_metadata t (path f) = Inl msg \<and>
     program_images t u folderPath (Directory entries) =
       (ProcessExit 1,
        \<lparr>trace = map dims_event (pre @ [f]) @ [LogError msg], out_files = Map.empty\<rparr>)"
proof -
  obtain msg where m: "sharp_metadata t (path f) = Inl msg"
    and l: "loadDimensions t (pre @ f # post) init_world =
       (Throw msg, init_world\<lparr>trace := trace init_world @ map dims_event (pre @ [f])\<rparr>)"
    using loadDimensions_stop [OF assms(2,3)] by blast
  have ne: "findImages entries folderPath folderPath \<noteq> []" using assms(1) by auto
  have "program_images t u folderPath (Directory entries) =
       (ProcessExit 1,
        \<lparr>trace = map dims_event (pre @ [f]) @ [LogError msg], out_files = Map.empty\<rparr>)"
    using ne l
    by (simp add: program_images_def main_images_def dims_images_eq assms(1) then_do_def
        emit_def init_world_def Let_def)
  then show ?thesis using m by blast
qed

lemma program_images_no_mode:
  assumes "findImages entries folderPath folderPath \<noteq> []"
    and "\<forall>x\<in>set (map to_media (findImages entries folderPath folderPath)). dims_ok t x"
    and "select_mode_i u = None"
  shows "program_images t u folderPath (Directory entries) =
     (ProcessExit 0,
      \<lparr>trace = map dims_event (map to_media (findImages entries folderPath folderPath))
               @ [LogCancel],
        out_files = Map.empty\<rparr>)"
  using assms(1,3)
  by (simp add: program_images_def main_images_def dims_images_eq Let_def
      loadDimensions_done [OF assms(2)] then_do_def exit_io_def emit_def init_world_def)

lemma program_images_loop:
  assumes "findImages entries folderPath folderPath \<noteq> []"
    and "\<forall>x\<in>set (map to_media (findImages entries folderPath folderPath)). dims_ok t x"
    and "select_mode_i u = Some md"
  shows "program_images t u folderPath (Directory entries) =
     (case process_all t (to_user u) md (output_dir folderPath)
             (map (with_dims t) (map to_media (findImages entries folderPath folderPath)))
             (0, 0)
             \<lparr>trace = map dims_event (map to_media (findImages entries folderPath folderPath))
                 @ [Mkdir (output_dir folderPath)],
               out_files = Map.empty\<rparr> of
        (Ret totals, w) \<Rightarrow>
          (Ret \<lparr>totalOriginal = fst totals, totalCompressed = snd totals,
                savings = int (fst totals) - int (snd totals)\<rparr>, w)
      | (Throw msg, w) \<Rightarrow> (ProcessExit 1, w\<lparr>trace := trace w @ [LogError msg]\<rparr>)
      | (ProcessExit c, w) \<Rightarrow> (ProcessExit c, w))"
proof -
  let ?I = "findImages entries folderPath folderPath"
  have loops: "fast_loop_images t (output_dir folderPath)
        (map to_image (map (with_dims t) (map to_media ?I))) (0, 0)
      = process_all t (to_user u) Fast (output_dir folderPath)
          (map (with_dims t) (map to_media ?I)) (0, 0)"
    "custom_loop_images t u (output_dir folderPath)
        (map to_image (map (with_dims t) (map to_media ?I))) (0, 0)
      = process_all t (to_user u) Custom (output_dir folderPath)
          (map (with_dims t) (map to_media ?I)) (0, 0)"
    by (simp_all only: fast_loop_images_eq [where u = "to_user u"] custom_loop_images_eq
        to_media_with_dims)
  show ?thesis
    using assms(1,3) loops
    by (cases md)
       (auto simp add: program_images_def main_images_def dims_images_eq Let_def
          loadDimensions_done [OF assms(2)] then_do_def ret_def emit_def init_world_def
          mkdir_def output_dir_def
          split: prod.splits step.splits)
qed

lemma paths_with_dims_to_media:
  "map (\<lambda>f. Some (path f)) (take n (map (with_dims t) (map to_media imgs)))
   = map (\<lambda>i. Some (path_i i)) (take n imgs)"
  by (simp add: take_map comp_def)

lemma program_images_shape:
  assumes run: "program_images t u folderPath (Directory entries) = (res, w)"
  shows "(\<exists>n\<le>length (findImages entries folderPath folderPath).
            map tool_input (filter is_encode (trace w))
              = map (\<lambda>i. Some (path_i i)) (take n (findImages entries folderPath folderPath))
            \<and> (\<forall>r. res = Ret r \<longrightarrow> n = length (findImages entries folderPath folderPath)))
       \<and> (no_failed_encode t (trace w)
          \<or> (\<exists>T e m. trace w = T @ [e, LogError m] \<and> no_failed_encode t T \<and> is_encode e
                \<and> encoder_answer t e = Inl m \<and> res = ProcessExit 1))"
proof -
  let ?I = "findImages entries folderPath folderPath"
  let ?M = "map to_media ?I"
  let ?od = "output_dir folderPath"
  consider (empty) "?I = []"
    | (dims) "\<not> (\<forall>x\<in>set ?M. dims_ok t x)"
    | (nomode) "?I \<noteq> []" "\<forall>x\<in>set ?M. dims_ok t x" "select_mode_i u = None"
    | (loop) md where "?I \<noteq> []" "\<forall>x\<in>set ?M. dims_ok t x" "select_mode_i u = Some md"
    by (cases "select_mode_i u"; cases "?I = []"; blast)
  then show ?thesis
  proof cases
    case empty
    then show ?thesis using run by (auto simp: program_images_no_images)
  next
    case dims
    then obtain pre f post where
      "?M = pre @ f # post" "\<not> dims_ok t f" "\<forall>x\<in>set pre. dims_ok t x"
      using split_list_first_prop [of ?M "\<lambda>f. \<not> dims_ok t f"] by auto
    then obtain msg where "program_images t u folderPath (Directory entries) =
       (ProcessExit 1,
        \<lparr>trace = map dims_event (pre @ [f]) @ [LogError msg], out_files = Map.empty\<rparr>)"
      using program_images_dims_fail [of entries folderPath pre f post t u] by auto
    then show ?thesis using run by auto
  next
    case nomode
    then show ?thesis using run by (auto simp: program_images_no_mode simp del: map_map)
  next
    case loop
    let ?F = "map (with_dims t) ?M"
    let ?W = "\<lparr>trace = map dims_event ?M @ [Mkdir ?od], out_files = Map.empty\<rparr>"
    obtain res0 w0 where pa: "process_all t (to_user u) md ?od ?F (0, 0) ?W = (res0, w0)"
      by (cases "process_all t (to_user u) md ?od ?F (0, 0) ?W") auto
    have prog: "(res, w) = (case res0 of
          Ret totals \<Rightarrow> (Ret \<lparr>totalOriginal = fst totals, totalCompressed = snd totals,
                             savings = int (fst totals) - int (snd totals)\<rparr>, w0)
        | Throw msg \<Rightarrow> (ProcessExit 1, w0\<lparr>trace := trace w0 @ [LogError msg]\<rparr>)
        | ProcessExit c \<Rightarrow> (ProcessExit c, w0))"
      using run program_images_loop [OF loop] pa by (simp split: step.splits)
    have W: "filter is_encode (trace ?W) = []" "no_failed_encode t (trace ?W)"
      by (simp_all del: map_map)
    have len: "length ?F = length ?I" by simp
    from loop_shape [OF pa]
    have A: "\<exists>n\<le>length ?F.
            map tool_input (filter is_encode (trace w0))
              = map tool_input (filter is_encode (trace ?W))
                @ map (\<lambda>f. Some (path f)) (take n ?F)
            \<and> (\<forall>x. res0 = Ret x \<longrightarrow> n = length ?F)"
      and B: "no_failed_encode t (trace ?W) \<longrightarrow>
            (\<forall>m. res0 \<noteq> Throw m) \<and> no_failed_encode t (trace w0)
          \<or> (\<exists>T e m. res0 = Throw m \<and> trace w0 = T @ [e] \<and> no_failed_encode t T
                \<and> is_encode e \<and> encoder_answer t e = Inl m)"
      by blast+
    from A obtain n where n0: "n \<le> length ?F"
      "map tool_input (filter is_encode (trace w0))
              = map tool_input (filter is_encode (trace ?W))
                @ map (\<lambda>f. Some (path f)) (take n ?F)"
      "\<forall>x. res0 = Ret x \<longrightarrow> n = length ?F"
      by blast
    have n: "n \<le> length ?I"
      "map tool_input (filter is_encode (trace w0)) = map (\<lambda>i. Some (path_i i)) (take n ?I)"
      "\<forall>x. res0 = Ret x \<longrightarrow> n = length ?I"
      using n0 unfolding W(1) paths_with_dims_to_media len by simp_all
    have sh: "(\<forall>m. res0 \<noteq> Throw m) \<and> no_failed_encode t (trace w0)
          \<or> (\<exists>T e m. res0 = Throw m \<and> trace w0 = T @ [e] \<and> no_failed_encode t T \<and> is_encode e
                \<and> encoder_answer t e = Inl m)"
      using B W(2) by blast
    show ?thesis
    proof (cases res0)
      case (Ret x)
      then show ?thesis using prog n sh by auto
    next
      case (Throw m)
      then show ?thesis using prog n sh by auto
    next
      case (ProcessExit c)
      then show ?thesis using prog n sh by auto
    qed
  qed
qed

section \<open>Example runs of the images-only version\<close>

lemma demo_images:
  "findImages demo_tree ''/home/u/pics'' ''/home/u/pics'' =
   [\<lparr>path_i = ''/home/u/pics/a.PNG'', name_i = ''a.PNG'', relativePath_i = ''a.PNG'',
      size_i = 3000, width_i = None, height_i = None\<rparr>,
    \<lparr>path_i = ''/home/u/pics/b.jpg'', name_i = ''b.jpg'', relativePath_i = ''b.jpg'',
      size_i = 2000, width_i = None, height_i = None\<rparr>]"
  by (simp add: demo_tree_def string_defs Let_def)

lemma demo_fail_run_images:
  "fst (program_images failing_sharp_tools (demo_user_images Fast) ''/home/u/pics''
          (Directory demo_tree))
     = ProcessExit 1
   \<and> trace (snd (program_images failing_sharp_tools (demo_user_images Fast) ''/home/u/pics''
                    (Directory demo_tree)))
     = [SharpMetadata ''/home/u/pics/a.PNG'',
        SharpMetadata ''/home/u/pics/b.jpg'',
        Mkdir ''/home/u/pics-compressed'',
        Mkdir ''/home/u/pics-compressed'',
        SharpWebp ''/home/u/pics/a.PNG'' None 75 ''/home/u/pics-compressed/a.webp'',
        Mkdir ''/home/u/pics-compressed'',
        SharpWebp ''/home/u/pics/b.jpg'' None 75 ''/home/u/pics-compressed/b.webp'',
        LogError ''sharp failed'']"
  by (simp add: program_images_def main_images_def run_defs demo_images demo_tools_def
        failing_sharp_tools_def demo_user_images_def)
     (simp add: string_defs)

lemma demo_run_images:
  "fst (program_images demo_tools (demo_user_images Custom) ''/home/u/pics''
          (Directory demo_tree))
     = Ret \<lparr>totalOriginal = 5000, totalCompressed = 400, savings = 4600\<rparr>
   \<and> trace (snd (program_images demo_tools (demo_user_images Custom) ''/home/u/pics''
                    (Directory demo_tree)))
     = [SharpMetadata ''/home/u/pics/a.PNG'',
        SharpMetadata ''/home/u/pics/b.jpg'',
        Mkdir ''/home/u/pics-compressed'',
        Mkdir ''/home/u/pics-compressed'',
        SharpWebp ''/home/u/pics/a.PNG'' (Some 400) 75 ''/home/u/pics-compressed/a.webp'',
        Mkdir ''/home/u/pics-compressed'',
        SharpWebp ''/home/u/pics/b.jpg'' (Some 400) 75 ''/home/u/pics-compressed/b.webp'']"
  by (simp add: program_images_def main_images_def run_defs demo_images demo_tools_def
        demo_user_images_def)
     (simp add: string_defs)

section \<open>Classification of the files of a tree\<close>

text \<open>
  Claim C2. Of the files met by the walk of the whole tree (\<open>all_files\<close> lists them, going
  into every subdirectory), the images returned by \<^verbatim>\<open>findMedia\<close> are exactly those whose
  lowercased extension is one of the seven image extensions, the videos exactly those whose
  lowercased extension is one of the six video extensions, in the order of the walk; a file
  with any other extension is not returned. Both versions of \<^verbatim>\<open>findMedia\<close> agree.
\<close>

theorem findMedia_classifies:
  "filter (\<lambda>m. type_f m = TImage) (findMedia entries dir baseDir) =
     [media_file p n baseDir sz TImage. (p, n, sz) \<leftarrow> all_files entries dir,
        toLowerCase (extname n) \<in> set [''.jpg'', ''.jpeg'', ''.png'', ''.webp'', ''.avif'', ''.tiff'', ''.gif'']]
   \<and> filter (\<lambda>m. type_f m = TVideo) (findMedia entries dir baseDir) =
     [media_file p n baseDir sz TVideo. (p, n, sz) \<leftarrow> all_files entries dir,
        toLowerCase (extname n) \<in> set [''.mp4'', ''.mov'', ''.avi'', ''.mkv'', ''.webm'', ''.m4v'']]
   \<and> findMedia entries dir baseDir =
     concat (map (\<lambda>(p, n, sz).
        if toLowerCase (extname n) \<in> set IMAGE_EXTS then [media_file p n baseDir sz TImage]
        else if toLowerCase (extname n) \<in> set VIDEO_EXTS then [media_file p n baseDir sz TVideo]
        else []) (all_files entries dir))
   \<and> findMedia_mono entries dir baseDir = findMedia entries dir baseDir"
  using findMedia_images [of entries dir baseDir] findMedia_videos [of entries dir baseDir]
    findMedia_mono_eq [of entries dir baseDir] findMedia_concat [of entries dir baseDir]
  by (simp add: IMAGE_EXTS_def VIDEO_EXTS_def)

theorem findMedia_classifies_witness:
  "map (\<lambda>m. (relativePath m, type_f m))
     (findMedia [File ''a.PNG'' 3, Dir ''d'' [File ''v.mov'' 5, File ''x.txt'' 1],
                 File ''.jpg'' 2] ''/p'' ''/p'')
   = [(''a.PNG'', TImage), (''d/v.mov'', TVideo)]"
proof -
  let ?t = "[File ''a.PNG'' 3, Dir ''d'' [File ''v.mov'' 5, File ''x.txt'' 1], File ''.jpg'' 2]"
  have "findMedia ?t ''/p'' ''/p'' =
     concat (map (\<lambda>(p, n, sz).
        if toLowerCase (extname n) \<in> set IMAGE_EXTS then [media_file p n ''/p'' sz TImage]
        else if toLowerCase (extname n) \<in> set VIDEO_EXTS then [media_file p n ''/p'' sz TVideo]
        else []) (all_files ?t ''/p''))"
    using findMedia_classifies [of ?t "''/p''" "''/p''"] by blast
  then show ?thesis
    by (simp add: toLowerCase_def extname_def lower_char_def after_last_def before_last_def
        IMAGE_EXTS_def VIDEO_EXTS_def media_file_def join_def relative_def)
qed

section \<open>Re-encoding one file\<close>

text \<open>
  Claim C1. A media file found by the walk is an image exactly when its lowercased
  extension is an image extension, and a video exactly when it is a video extension.
  \<^verbatim>\<open>processFile\<close> creates the directory of the output and makes one encoder call: for an
  image the image library with WebP at quality 75, for a video the video encoder with
  \<^verbatim>\<open>-c:v libx264 -crf 28 -preset fast -c:a aac -b:a 128k\<close>. The output is written below the
  output folder at the file's relative path, with the extension of its name replaced by
  \<^verbatim>\<open>.webp\<close> for an image and \<^verbatim>\<open>.mp4\<close> for a video; when the call succeeds the output file is
  there, made from this input. The dimensions read in the custom mode (\<open>wd\<close>, \<open>ht\<close>) play
  no part.
\<close>

theorem processFile_reencodes:
  assumes "f \<in> set (findMedia entries folderPath folderPath)"
  shows "\<exists>mid out.
      path f = join folderPath (mid @ name f)
    \<and> name f = before_last CHR ''.'' (name f) @ extname (name f)
    \<and> (type_f f = TImage) = (toLowerCase (extname (name f)) \<in> set IMAGE_EXTS)
    \<and> (type_f f = TVideo) = (toLowerCase (extname (name f)) \<in> set VIDEO_EXTS)
    \<and> out = join outputDir (mid @ before_last CHR ''.'' (name f)
                               @ (if type_f f = TImage then ''.webp'' else ''.mp4''))
    \<and> trace (snd (processFile t (f\<lparr>width := wd, height := ht\<rparr>) outputDir maxWidth w))
        = trace w @
          [Mkdir (dirname out),
           if type_f f = TImage
           then SharpWebp (path f) (resize_width maxWidth) 75 out
           else Ffmpeg ([''-y'', ''-i'', path f, ''-c:v'', ''libx264'', ''-crf'', ''28'',
                         ''-preset'', ''fast'', ''-c:a'', ''aac'', ''-b:a'', ''128k'']
                        @ (case resize_width maxWidth of
                             Some m \<Rightarrow> [''-vf'', scale_filter m]
                           | None \<Rightarrow> [])
                        @ [out])]
    \<and> (\<forall>sz. fst (processFile t (f\<lparr>width := wd, height := ht\<rparr>) outputDir maxWidth w) = Ret sz
          \<longrightarrow> out_files (snd (processFile t (f\<lparr>width := wd, height := ht\<rparr>) outputDir
                                  maxWidth w)) out
              = Some (path f, sz))"
proof -
  from findMedia_file [OF assms] obtain mid where
    p: "path f = join folderPath (mid @ name f)"
    and n: "name f = before_last CHR ''.'' (name f) @ extname (name f)"
    and ty: "(type_f f = TImage) = (toLowerCase (extname (name f)) \<in> set IMAGE_EXTS)"
      "(type_f f = TVideo) = (toLowerCase (extname (name f)) \<in> set VIDEO_EXTS)"
    and out: "output_path outputDir f
          = join outputDir (mid @ before_last CHR ''.'' (name f)
                      @ (if type_f f = TImage then ''.webp'' else ''.mp4''))"
    by blast
  let ?f = "f\<lparr>width := wd, height := ht\<rparr>"
  let ?out = "output_path outputDir f"
  have same: "output_path outputDir ?f = ?out"
    "encode_event outputDir ?f maxWidth = encode_event outputDir f maxWidth"
    by (simp_all add: output_path_def encode_event_def)
  have tr: "trace (snd (processFile t ?f outputDir maxWidth w))
      = trace w @ [Mkdir (dirname ?out), encode_event outputDir f maxWidth]"
    by (simp add: processFile_eq same split: sum.splits)
  have wr: "\<forall>sz. fst (processFile t ?f outputDir maxWidth w) = Ret sz
          \<longrightarrow> out_files (snd (processFile t ?f outputDir maxWidth w)) ?out = Some (path f, sz)"
    by (simp add: processFile_eq same split: sum.splits)
  show ?thesis
    apply (rule exI [of _ mid])
    apply (rule exI [of _ ?out])
    using p n ty tr wr out by (simp add: encode_event_def)
qed

theorem processFile_reencodes_witness:
  "media_file ''/home/u/pics/d/v.mov'' ''v.mov'' ''/home/u/pics'' 90000 TVideo
     \<in> set (findMedia demo_tree ''/home/u/pics'' ''/home/u/pics'')
   \<and> (\<exists>mid out.
        ''/home/u/pics/d/v.mov'' = join ''/home/u/pics'' (mid @ ''v.mov'')
      \<and> ''v.mov'' = before_last CHR ''.'' ''v.mov'' @ extname ''v.mov''
      \<and> toLowerCase (extname ''v.mov'') \<in> set VIDEO_EXTS
      \<and> out = join ''/home/u/pics-compressed'' (mid @ before_last CHR ''.'' ''v.mov'' @ ''.mp4'')
      \<and> trace (snd (processFile demo_tools
                 (media_file ''/home/u/pics/d/v.mov'' ''v.mov'' ''/home/u/pics'' 90000 TVideo
                    \<lparr>width := Some 1280, height := Some 720\<rparr>)
                 ''/home/u/pics-compressed'' (Some 400) init_world))
          = [Mkdir (dirname out),
             Ffmpeg [''-y'', ''-i'', ''/home/u/pics/d/v.mov'', ''-c:v'', ''libx264'', ''-crf'',
                     ''28'', ''-preset'', ''fast'', ''-c:a'', ''aac'', ''-b:a'', ''128k'',
                     ''-vf'', scale_filter 400, out]])
   \<and> trace (snd (processFile demo_tools
                 (media_file ''/home/u/pics/a.PNG'' ''a.PNG'' ''/home/u/pics'' 3000 TImage)
                 ''/home/u/pics-compressed'' None init_world))
      = [Mkdir ''/home/u/pics-compressed'',
         SharpWebp ''/home/u/pics/a.PNG'' None 75 ''/home/u/pics-compressed/a.webp'']"
proof -
  let ?f = "media_file ''/home/u/pics/d/v.mov'' ''v.mov'' ''/home/u/pics'' 90000 TVideo"
  have mem: "?f \<in> set (findMedia demo_tree ''/home/u/pics'' ''/home/u/pics'')"
    by (simp add: demo_media)
  have img: "trace (snd (processFile demo_tools
                 (media_file ''/home/u/pics/a.PNG'' ''a.PNG'' ''/home/u/pics'' 3000 TImage)
                 ''/home/u/pics-compressed'' None init_world))
      = [Mkdir ''/home/u/pics-compressed'',
         SharpWebp ''/home/u/pics/a.PNG'' None 75 ''/home/u/pics-compressed/a.webp'']"
    by (simp add: run_defs demo_tools_def) (simp add: media_file_def string_defs)
  from processFile_reencodes [OF mem, where outputDir = "''/home/u/pics-compressed''"
      and t = demo_tools and wd = "Some 1280" and ht = "Some 720" and maxWidth = "Some 400"
      and w = init_world]
  obtain mid out where
    "path ?f = join ''/home/u/pics'' (mid @ name ?f)"
    "name ?f = before_last CHR ''.'' (name ?f) @ extname (name ?f)"
    "(type_f ?f = TVideo) = (toLowerCase (extname (name ?f)) \<in> set VIDEO_EXTS)"
    "out = join ''/home/u/pics-compressed'' (mid @ before_last CHR ''.'' (name ?f)
                               @ (if type_f ?f = TImage then ''.webp'' else ''.mp4''))"
    "trace (snd (processFile demo_tools (?f\<lparr>width := Some 1280, height := Some 720\<rparr>)
                   ''/home/u/pics-compressed'' (Some 400) init_world))
        = trace init_world @
          [Mkdir (dirname out),
           if type_f ?f = TImage
           then SharpWebp (path ?f) (resize_width (Some 400)) 75 out
           else Ffmpeg ([''-y'', ''-i'', path ?f, ''-c:v'', ''libx264'', ''-crf'', ''28'',
                         ''-preset'', ''fast'', ''-c:a'', ''aac'', ''-b:a'', ''128k'']
                        @ (case resize_width (Some 400) of
                             Some m \<Rightarrow> [''-vf'', scale_filter m]
                           | None \<Rightarrow> [])
                        @ [out])]"
    by blast
  then have "''/home/u/pics/d/v.mov'' = join ''/home/u/pics'' (mid @ ''v.mov'')
      \<and> ''v.mov'' = before_last CHR ''.'' ''v.mov'' @ extname ''v.mov''
      \<and> toLowerCase (extname ''v.mov'') \<in> set VIDEO_EXTS
      \<and> out = join ''/home/u/pics-compressed'' (mid @ before_last CHR ''.'' ''v.mov'' @ ''.mp4'')
      \<and> trace (snd (processFile demo_tools
                 (media_file ''/home/u/pics/d/v.mov'' ''v.mov'' ''/home/u/pics'' 90000 TVideo
                    \<lparr>width := Some 1280, height := Some 720\<rparr>)
                 ''/home/u/pics-compressed'' (Some 400) init_world))
          = [Mkdir (dirname out),
             Ffmpeg [''-y'', ''-i'', ''/home/u/pics/d/v.mov'', ''-c:v'', ''libx264'', ''-crf'',
                     ''28'', ''-preset'', ''fast'', ''-c:a'', ''aac'', ''-b:a'', ''128k'',
                     ''-vf'', scale_filter 400, out]]"
    by (simp add: media_file_def resize_width_def init_world_def)
  then show ?thesis using mem img by blast
qed

section \<open>Where the outputs go\<close>



section \<open>Downscaling\<close>



section \<open>The totals\<close>



section \<open>Tool calls per file\<close>




section \<open>One attempt per file, and the first error ends the run\<close>

text \<open>
  Claim C7. The encoder calls of a run are made on the media files in processing order,
  one call per file, up to some file \<open>n\<close>: on all of them when the run completes. No file
  gets a second call. And when an encoder call throws, the program prints the message of
  the error and exits with status 1, and that is all it still does: the failed call is
  followed by the error line alone, so the file is not tried again and no later file is
  processed. The refactored version goes through the files in the order of the walk, the
  first version with videos through the images and then the videos, the images-only
  version through the images.
\<close>

theorem sequential_no_retry:
  "(program t u isCliMode folderPath (Directory entries) = (res, w) \<longrightarrow>
      (\<exists>n\<le>length (findMedia entries folderPath folderPath).
          map tool_input (filter is_encode (trace w))
            = map (\<lambda>f. Some (path f)) (take n (findMedia entries folderPath folderPath))
          \<and> (\<forall>r. res = Ret r \<longrightarrow> n = length (findMedia entries folderPath folderPath)))
    \<and> (\<forall>i msg. i < length (trace w) \<and> is_encode (trace w ! i)
                  \<and> encoder_answer t (trace w ! i) = Inl msg \<longrightarrow>
          res = ProcessExit 1 \<and> trace w = take (Suc i) (trace w) @ [LogError msg]))
   \<and> (program_mono t u folderPath (Directory entries) = (res', w') \<longrightarrow>
      (\<exists>n\<le>length (findMedia_mono entries folderPath folderPath).
          map tool_input (filter is_encode (trace w'))
            = map (\<lambda>f. Some (path f))
                (take n (filter (\<lambda>m. type_f m = TImage)
                           (findMedia_mono entries folderPath folderPath)
                         @ filter (\<lambda>m. type_f m = TVideo)
                             (findMedia_mono entries folderPath folderPath)))
          \<and> (\<forall>r. res' = Ret r \<longrightarrow> n = length (findMedia_mono entries folderPath folderPath)))
    \<and> (\<forall>i msg. i < length (trace w') \<and> is_encode (trace w' ! i)
                  \<and> encoder_answer t (trace w' ! i) = Inl msg \<longrightarrow>
          res' = ProcessExit 1 \<and> trace w' = take (Suc i) (trace w') @ [LogError msg]))
   \<and> (program_images t ui folderPath (Directory entries) = (res'', w'') \<longrightarrow>
      (\<exists>n\<le>length (findImages entries folderPath folderPath).
          map tool_input (filter is_encode (trace w''))
            = map (\<lambda>i. Some (path_i i)) (take n (findImages entries folderPath folderPath))
          \<and> (\<forall>r. res'' = Ret r \<longrightarrow> n = length (findImages entries folderPath folderPath)))
    \<and> (\<forall>i msg. i < length (trace w'') \<and> is_encode (trace w'' ! i)
                  \<and> encoder_answer t (trace w'' ! i) = Inl msg \<longrightarrow>
          res'' = ProcessExit 1 \<and> trace w'' = take (Suc i) (trace w'') @ [LogError msg]))"
proof (intro conjI impI allI)
  assume run: "program t u isCliMode folderPath (Directory entries) = (res, w)"
  show "\<exists>n\<le>length (findMedia entries folderPath folderPath).
          map tool_input (filter is_encode (trace w))
            = map (\<lambda>f. Some (path f)) (take n (findMedia entries folderPath folderPath))
          \<and> (\<forall>r. res = Ret r \<longrightarrow> n = length (findMedia entries folderPath folderPath))"
    using program_shape [OF run] by blast
  fix i msg
  assume "i < length (trace w) \<and> is_encode (trace w ! i)
            \<and> encoder_answer t (trace w ! i) = Inl msg"
  then show "res = ProcessExit 1" and "trace w = take (Suc i) (trace w) @ [LogError msg]"
    using program_shape [OF run] failed_encode_is_last [of t "trace w" res i msg] by blast+
next
  assume run: "program_mono t u folderPath (Directory entries) = (res', w')"
  show "\<exists>n\<le>length (findMedia_mono entries folderPath folderPath).
          map tool_input (filter is_encode (trace w'))
            = map (\<lambda>f. Some (path f))
                (take n (filter (\<lambda>m. type_f m = TImage)
                           (findMedia_mono entries folderPath folderPath)
                         @ filter (\<lambda>m. type_f m = TVideo)
                             (findMedia_mono entries folderPath folderPath)))
          \<and> (\<forall>r. res' = Ret r \<longrightarrow> n = length (findMedia_mono entries folderPath folderPath))"
    using program_mono_shape [OF run] by (simp only: findMedia_mono_eq)
  fix i msg
  assume "i < length (trace w') \<and> is_encode (trace w' ! i)
            \<and> encoder_answer t (trace w' ! i) = Inl msg"
  then show "res' = ProcessExit 1" and "trace w' = take (Suc i) (trace w') @ [LogError msg]"
    using program_mono_shape [OF run] failed_encode_is_last [of t "trace w'" res' i msg]
    by blast+
next
  assume run: "program_images t ui folderPath (Directory entries) = (res'', w'')"
  show "\<exists>n\<le>length (findImages entries folderPath folderPath).
          map tool_input (filter is_encode (trace w''))
            = map (\<lambda>i. Some (path_i i)) (take n (findImages entries folderPath folderPath))
          \<and> (\<forall>r. res'' = Ret r \<longrightarrow> n = length (findImages entries folderPath folderPath))"
    using program_images_shape [OF run] by blast
  fix i msg
  assume "i < length (trace w'') \<and> is_encode (trace w'' ! i)
            \<and> encoder_answer t (trace w'' ! i) = Inl msg"
  then show "res'' = ProcessExit 1" and "trace w'' = take (Suc i) (trace w'') @ [LogError msg]"
    using program_images_shape [OF run] failed_encode_is_last [of t "trace w''" res'' i msg]
    by blast+
qed

theorem sequential_no_retry_witness:
  "\<exists>res w res' w' res'' w''.
      program failing_tools (demo_user Fast) True ''/home/u/pics'' (Directory demo_tree)
        = (res, w)
    \<and> program_mono failing_tools (demo_user Fast) ''/home/u/pics'' (Directory demo_tree)
        = (res', w')
    \<and> program_images failing_sharp_tools (demo_user_images Fast) ''/home/u/pics''
          (Directory demo_tree)
        = (res'', w'')
    \<and> is_encode (trace w ! 4) \<and> encoder_answer failing_tools (trace w ! 4) = Inl ''ffmpeg failed''
    \<and> res = ProcessExit 1 \<and> trace w = take 5 (trace w) @ [LogError ''ffmpeg failed'']
    \<and> map tool_input (filter is_encode (trace w))
        = [Some ''/home/u/pics/a.PNG'', Some ''/home/u/pics/d/v.mov'']
    \<and> is_encode (trace w' ! 9)
    \<and> encoder_answer failing_tools (trace w' ! 9) = Inl ''ffmpeg failed''
    \<and> res' = ProcessExit 1 \<and> trace w' = take 10 (trace w') @ [LogError ''ffmpeg failed'']
    \<and> is_encode (trace w'' ! 6)
    \<and> encoder_answer failing_sharp_tools (trace w'' ! 6) = Inl ''sharp failed''
    \<and> res'' = ProcessExit 1 \<and> trace w'' = take 7 (trace w'') @ [LogError ''sharp failed'']"
proof -
  let ?run = "program failing_tools (demo_user Fast) True ''/home/u/pics'' (Directory demo_tree)"
  let ?run' = "program_mono failing_tools (demo_user Fast) ''/home/u/pics'' (Directory demo_tree)"
  let ?run'' = "program_images failing_sharp_tools (demo_user_images Fast) ''/home/u/pics''
                  (Directory demo_tree)"
  obtain res w where run: "?run = (res, w)" by (cases ?run) auto
  obtain res' w' where run': "?run' = (res', w')" by (cases ?run') auto
  obtain res'' w'' where run'': "?run'' = (res'', w'')" by (cases ?run'') auto
  have w: "trace w = [Mkdir ''/home/u/pics-compressed'',
        Mkdir ''/home/u/pics-compressed'',
        SharpWebp ''/home/u/pics/a.PNG'' None 75 ''/home/u/pics-compressed/a.webp'',
        Mkdir ''/home/u/pics-compressed/d'',
        Ffmpeg [''-y'', ''-i'', ''/home/u/pics/d/v.mov'', ''-c:v'', ''libx264'', ''-crf'', ''28'',
                ''-preset'', ''fast'', ''-c:a'', ''aac'', ''-b:a'', ''128k'',
                ''/home/u/pics-compressed/d/v.mp4''],
        LogError ''ffmpeg failed'']"
    using demo_fail_run [of True] run by simp
  have w': "length (trace w') = 11 \<and> trace w' ! 9 =
        Ffmpeg [''-y'', ''-i'', ''/home/u/pics/d/v.mov'', ''-c:v'', ''libx264'', ''-crf'', ''28'',
                ''-preset'', ''fast'', ''-c:a'', ''aac'', ''-b:a'', ''128k'',
                ''/home/u/pics-compressed/d/v.mp4'']"
    using demo_fail_run_mono run' by simp
  have w'': "length (trace w'') = 8 \<and> trace w'' ! 6 =
        SharpWebp ''/home/u/pics/b.jpg'' None 75 ''/home/u/pics-compressed/b.webp''"
    using demo_fail_run_images run'' by simp
  have hyp: "4 < length (trace w) \<and> is_encode (trace w ! 4)
      \<and> encoder_answer failing_tools (trace w ! 4) = Inl ''ffmpeg failed''"
    by (simp add: w failing_tools_def)
  have hyp': "9 < length (trace w') \<and> is_encode (trace w' ! 9)
      \<and> encoder_answer failing_tools (trace w' ! 9) = Inl ''ffmpeg failed''"
    by (simp add: w' failing_tools_def)
  have hyp'': "6 < length (trace w'') \<and> is_encode (trace w'' ! 6)
      \<and> encoder_answer failing_sharp_tools (trace w'' ! 6) = Inl ''sharp failed''"
    by (simp add: w'' failing_sharp_tools_def)
  from sequential_no_retry [where t = failing_tools and u = "demo_user Fast"
      and isCliMode = True and folderPath = "''/home/u/pics''" and entries = demo_tree
      and res = res and w = w and res' = res' and w' = w'] run run' hyp hyp'
  have a: "res = ProcessExit 1 \<and> trace w = take (Suc 4) (trace w) @ [LogError ''ffmpeg failed'']
      \<and> res' = ProcessExit 1
      \<and> trace w' = take (Suc 9) (trace w') @ [LogError ''ffmpeg failed'']"
    by blast
  from sequential_no_retry [where t = failing_sharp_tools and ui = "demo_user_images Fast"
      and folderPath = "''/home/u/pics''" and entries = demo_tree
      and res'' = res'' and w'' = w''] run'' hyp''
  have b: "res'' = ProcessExit 1
      \<and> trace w'' = take (Suc 6) (trace w'') @ [LogError ''sharp failed'']"
    by blast
  have c: "map tool_input (filter is_encode (trace w))
        = [Some ''/home/u/pics/a.PNG'', Some ''/home/u/pics/d/v.mov'']"
    by (simp add: w)
  show ?thesis using a b c run run' run'' hyp hyp' hyp'' by simp
qed

section \<open>The two versions\<close>




section \<open>Output paths can collide\<close>



section \<open>A folder without media\<close>




end
